theory Spec2Isabelle
  imports Main "HOL-Library.Word" "HOL-Library.Multiset" "HOL-Library.AList"
begin

section \<open>Bytes, hex strings and lower-casing\<close>

text \<open>
  The JavaScript sources move key hashes and asset units around as hex strings.
  \<^verbatim>\<open>bytesToHex = (b) => Buffer.from(b).toString('hex')\<close> writes two lower-case hex
  digits per byte. \<^verbatim>\<open>String.prototype.toLowerCase\<close> is modelled on ASCII, which is all a
  hex string contains.
\<close>

type_synonym byte = "8 word"

definition hexDigit :: "nat \<Rightarrow> char" where
  "hexDigit n = ''0123456789abcdef'' ! n"

definition byteToHex :: "byte \<Rightarrow> string" where
  "byteToHex b = [hexDigit (unat b div 16), hexDigit (unat b mod 16)]"

definition bytesToHex :: "byte list \<Rightarrow> string" where
  "bytesToHex b = concat (map byteToHex b)"

definition toLowerChar :: "char \<Rightarrow> char" where
  "toLowerChar c =
     (case map_of (zip ''ABCDEFGHIJKLMNOPQRSTUVWXYZ'' ''abcdefghijklmnopqrstuvwxyz'') c of
        Some d \<Rightarrow> d
      | None \<Rightarrow> c)"

definition toLowerCase :: "string \<Rightarrow> string" where
  "toLowerCase s = map toLowerChar s"

section \<open>Native script analysis (deriveSummary)\<close>

text \<open>
  A parsed native script, as the serialization library hands it to \<^verbatim>\<open>collectScriptInfo\<close>:
  its \<^verbatim>\<open>kind()\<close> is one of the six values of the table \<^verbatim>\<open>K\<close>. The \<^verbatim>\<open>default\<close> branch of
  the switch (an unknown kind) cannot be reached from a value of this type and pushes
  only a trace entry.
\<close>

datatype native_script =
    ScriptPubkey "byte list"
  | ScriptAll "native_script list"
  | ScriptAny "native_script list"
  | ScriptNOfK nat "native_script list"
  | TimelockStart nat
  | TimelockExpiry nat

text \<open>Path segments \<^verbatim>\<open>all[i]\<close>, \<^verbatim>\<open>any[i]\<close> and \<^verbatim>\<open>atLeast(n=..)[i]\<close> of the structure trace.\<close>

datatype path_seg = InAll nat | InAny nat | InAtLeast nat nat

datatype tree_node =
    NodePubkey string "path_seg list"
  | NodeAll "path_seg list"
  | NodeAny "path_seg list"
  | NodeAtLeast nat nat "path_seg list"
  | NodeInvalidBefore nat "path_seg list"
  | NodeInvalidHereafter nat "path_seg list"

text \<open>
  The accumulator \<^verbatim>\<open>info\<close>. \<^verbatim>\<open>keys\<close> is a JavaScript \<^verbatim>\<open>Set\<close>: insertion ordered,
  without duplicates. \<^verbatim>\<open>invalidBefore\<close> and \<^verbatim>\<open>invalidHereafter\<close> start as \<^verbatim>\<open>null\<close>.
\<close>

record script_info =
  keys :: "string list"
  thresholds :: "nat list"
  invalidBefore :: "nat option"
  invalidHereafter :: "nat option"
  tree :: "tree_node list"

definition set_add :: "'a \<Rightarrow> 'a list \<Rightarrow> 'a list" where
  "set_add x xs = (if x \<in> set xs then xs else xs @ [x])"

definition MAX_SAFE_INTEGER :: nat where
  "MAX_SAFE_INTEGER = 2 ^ 53 - 1"

text \<open>
  The two time-lock cases read the slot with \<^verbatim>\<open>nativeScript.as_timelock_start().slot()\<close>
  (\<^verbatim>\<open>as_timelock_expiry\<close> for the other) and then evaluate \<^verbatim>\<open>Number(slot.to_str())\<close>. The
  library's \<^verbatim>\<open>slot()\<close> returns a JavaScript number, which has no \<^verbatim>\<open>to_str\<close>: the call
  throws \<^verbatim>\<open>TypeError: slot.to_str is not a function\<close> while the right-hand side of the
  first assignment is evaluated, before \<^verbatim>\<open>acc\<close> is touched. Nothing between the walk and
  the caller of \<^verbatim>\<open>deriveSummary\<close> catches it, so the walk ends there with the exception
  \<open>ToStrNotAFunction\<close>.
\<close>

datatype walk_exception = ToStrNotAFunction

fun collectScriptInfo ::
    "native_script \<Rightarrow> script_info \<Rightarrow> path_seg list \<Rightarrow> walk_exception + script_info"
  and collectChildren ::
    "(nat \<Rightarrow> path_seg) \<Rightarrow> native_script list \<Rightarrow> nat \<Rightarrow> script_info \<Rightarrow> path_seg list
       \<Rightarrow> walk_exception + script_info"
where
  "collectScriptInfo (ScriptPubkey kh) acc path =
     (let hex = bytesToHex kh in
      Inr (acc\<lparr>keys := set_add (toLowerCase hex) (keys acc),
               tree := tree acc @ [NodePubkey (toLowerCase hex) path]\<rparr>))"
| "collectScriptInfo (ScriptAll scripts) acc path =
     collectChildren InAll scripts 0 (acc\<lparr>tree := tree acc @ [NodeAll path]\<rparr>) path"
| "collectScriptInfo (ScriptAny scripts) acc path =
     collectChildren InAny scripts 0 (acc\<lparr>tree := tree acc @ [NodeAny path]\<rparr>) path"
| "collectScriptInfo (ScriptNOfK n scripts) acc path =
     collectChildren (InAtLeast n) scripts 0
       (acc\<lparr>thresholds := thresholds acc @ [n],
            tree := tree acc @ [NodeAtLeast n (length scripts) path]\<rparr>) path"
| "collectScriptInfo (TimelockStart slot) acc path = Inl ToStrNotAFunction"
| "collectScriptInfo (TimelockExpiry slot) acc path = Inl ToStrNotAFunction"
| "collectChildren seg [] i acc path = Inr acc"
| "collectChildren seg (s # ss) i acc path =
     (case collectScriptInfo s acc (path @ [seg i]) of
        Inl e \<Rightarrow> Inl e
      | Inr acc' \<Rightarrow> collectChildren seg ss (Suc i) acc' path)"

record script_summary =
  mRequired :: nat
  totalKeys :: nat
  requiredKeyHashes :: "string list"
  hasTimeConstraints :: bool
  sumInvalidBefore :: "nat option"
  sumInvalidHereafter :: "nat option"
  scriptHash :: string
  structureTrace :: "tree_node list"

fun isAnyNode :: "tree_node \<Rightarrow> bool" where
  "isAnyNode (NodeAny p) = True"
| "isAnyNode n = False"

text \<open>
  \<^verbatim>\<open>deriveSummary\<close> after \<^verbatim>\<open>CSL.NativeScript.from_bytes\<close>: the parsed script is the
  argument, and the library's script hash (\<^verbatim>\<open>ns.hash(...)\<close>) is the parameter
  \<open>nsHash\<close>. An exception of the walk leaves \<^verbatim>\<open>deriveSummary\<close> as it is: no summary is
  returned. \<^verbatim>\<open>Math.max(...info.thresholds)\<close> is only evaluated on a non-empty array.
\<close>

definition deriveSummary ::
  "(native_script \<Rightarrow> byte list) \<Rightarrow> native_script \<Rightarrow> walk_exception + script_summary" where
  "deriveSummary nsHash ns =
     (case collectScriptInfo ns
             \<lparr>keys = [], thresholds = [], invalidBefore = None,
              invalidHereafter = None, tree = []\<rparr> [] of
        Inl e \<Rightarrow> Inl e
      | Inr info \<Rightarrow>
          let required = keys info;
              m = (if length (thresholds info) > 0 then Max (set (thresholds info))
                   else (let hasAny = list_ex isAnyNode (tree info)
                         in if hasAny then 1 else length required))
          in Inr \<lparr>mRequired = m,
                  totalKeys = length required,
                  requiredKeyHashes = required,
                  hasTimeConstraints = (invalidBefore info \<noteq> None \<or> invalidHereafter info \<noteq> None),
                  sumInvalidBefore = invalidBefore info,
                  sumInvalidHereafter =
                    (if invalidHereafter info = Some MAX_SAFE_INTEGER then None
                     else invalidHereafter info),
                  scriptHash = bytesToHex (nsHash ns),
                  structureTrace = tree info\<rparr>)"

subsection \<open>What the claims say about a script tree\<close>

text \<open>
  The quantities of the specification, read off the tree itself: the thresholds of the
  AtLeast nodes, whether an Any node occurs, and the set of pubkey key hashes.
\<close>

fun atLeastNs :: "native_script \<Rightarrow> nat list" where
  "atLeastNs (ScriptNOfK n scripts) = n # concat (map atLeastNs scripts)"
| "atLeastNs (ScriptAll scripts) = concat (map atLeastNs scripts)"
| "atLeastNs (ScriptAny scripts) = concat (map atLeastNs scripts)"
| "atLeastNs s = []"

fun hasAnyNode :: "native_script \<Rightarrow> bool" where
  "hasAnyNode (ScriptAny scripts) = True"
| "hasAnyNode (ScriptAll scripts) = list_ex hasAnyNode scripts"
| "hasAnyNode (ScriptNOfK n scripts) = list_ex hasAnyNode scripts"
| "hasAnyNode s = False"

fun pubkeys :: "native_script \<Rightarrow> byte list set" where
  "pubkeys (ScriptPubkey kh) = {kh}"
| "pubkeys (ScriptAll scripts) = \<Union> (set (map pubkeys scripts))"
| "pubkeys (ScriptAny scripts) = \<Union> (set (map pubkeys scripts))"
| "pubkeys (ScriptNOfK n scripts) = \<Union> (set (map pubkeys scripts))"
| "pubkeys s = {}"

text \<open>Whether the tree has an InvalidBefore or InvalidHereafter node.\<close>

fun hasTimelock :: "native_script \<Rightarrow> bool" where
  "hasTimelock (TimelockStart slot) = True"
| "hasTimelock (TimelockExpiry slot) = True"
| "hasTimelock (ScriptAll scripts) = list_ex hasTimelock scripts"
| "hasTimelock (ScriptAny scripts) = list_ex hasTimelock scripts"
| "hasTimelock (ScriptNOfK n scripts) = list_ex hasTimelock scripts"
| "hasTimelock (ScriptPubkey kh) = False"

section \<open>Values on the wire, in JavaScript and in the serialization library\<close>

text \<open>
  \<^verbatim>\<open>hexToBytes = (h) => Buffer.from(h, 'hex')\<close>: Node decodes pairs of hex digits and stops
  at the first pair that is not hex; a trailing single digit is dropped.
\<close>

definition hexVal :: "char \<Rightarrow> nat option" where
  "hexVal c = map_of (zip ''0123456789abcdefABCDEF''
                 [0, 1, 2, 3, 4, 5, 6, 7, 8, 9, 10, 11, 12, 13, 14, 15, 10, 11, 12, 13, 14, 15]) c"

fun hexToBytes :: "string \<Rightarrow> byte list" where
  "hexToBytes (a # b # rest) =
     (case hexVal a of
        None \<Rightarrow> []
      | Some x \<Rightarrow> (case hexVal b of
                    None \<Rightarrow> []
                  | Some y \<Rightarrow> of_nat (16 * x + y) # hexToBytes rest))"
| "hexToBytes s = []"

text \<open>
  Quantities travel as decimal strings and are read with \<^verbatim>\<open>BigInt\<close> (unbounded) on the
  JavaScript side and with \<^verbatim>\<open>CSL.BigNum.from_str\<close> (an unsigned 64-bit number) on the
  library side. A quantity is the integer its decimal string denotes; what the library
  refuses is an error value. All exceptions raised inside the serialization library are
  the one error \<open>CslError\<close>; the errors thrown by \<^verbatim>\<open>buildUnsignedTx\<close> itself keep their
  identity:
  \<^item> \<open>DestAddressMissing\<close>: \<^verbatim>\<open>'DEST address missing'\<close>
  \<^item> \<open>InvalidMode\<close>: \<^verbatim>\<open>'invalid mode'\<close>
  \<^item> \<open>InsufficientAda\<close>: \<^verbatim>\<open>'insufficient ADA for outputs + 1 ADA fee'\<close>
  \<^item> \<open>InsufficientTokens\<close>: \<^verbatim>\<open>'insufficient tokens for requested outputs'\<close>
  \<^item> \<open>ChangeBelowMinAda\<close>: \<^verbatim>\<open>'insufficient ADA for change that carries tokens ...'\<close>
  \<^item> \<open>TypeError\<close>: reading \<^verbatim>\<open>.quantity\<close> of \<^verbatim>\<open>undefined\<close> (a UTxO without a lovelace entry)
  \<^item> \<open>ChainError\<close>: a rejected promise of the indexer client.
\<close>

datatype build_error =
    DestAddressMissing
  | InvalidMode
  | InsufficientAda
  | InsufficientTokens
  | ChangeBelowMinAda
  | TypeError
  | CslError
  | ChainError

fun bindE :: "'e + 'a \<Rightarrow> ('a \<Rightarrow> 'e + 'b) \<Rightarrow> 'e + 'b" where
  "bindE (Inl e) f = Inl e"
| "bindE (Inr x) f = f x"

text \<open>A \<^verbatim>\<open>for\<close> loop whose body may throw: the first error ends the loop.\<close>

fun foldE :: "('s \<Rightarrow> 'a \<Rightarrow> 'e + 's) \<Rightarrow> 'a list \<Rightarrow> 's \<Rightarrow> 'e + 's" where
  "foldE f [] s = Inr s"
| "foldE f (x # xs) s = bindE (f s x) (foldE f xs)"

definition BigNum_from_str :: "int \<Rightarrow> build_error + int" where
  "BigNum_from_str q = (if 0 \<le> q \<and> q < 2 ^ 64 then Inr q else Inl CslError)"

definition checked_add :: "int \<Rightarrow> int \<Rightarrow> build_error + int" where
  "checked_add a b = (if a + b < 2 ^ 64 then Inr (a + b) else Inl CslError)"

definition ScriptHash_from_bytes :: "byte list \<Rightarrow> build_error + byte list" where
  "ScriptHash_from_bytes b = (if length b = 28 then Inr b else Inl CslError)"

definition AssetName_new :: "byte list \<Rightarrow> build_error + byte list" where
  "AssetName_new b = (if length b \<le> 32 then Inr b else Inl CslError)"

definition TransactionHash_from_bytes :: "byte list \<Rightarrow> build_error + byte list" where
  "TransactionHash_from_bytes b = (if length b = 32 then Inr b else Inl CslError)"

text \<open>
  A JavaScript \<^verbatim>\<open>Map\<close> is an association list in insertion order with distinct keys:
  \<^verbatim>\<open>m.get(k)\<close> is \<^const>\<open>map_of\<close>, \<^verbatim>\<open>m.set(k, v)\<close> is \<^const>\<open>AList.update\<close> (replace in place,
  or append), \<^verbatim>\<open>m.delete(k)\<close> is \<^const>\<open>AList.delete\<close>, \<^verbatim>\<open>m.size\<close> is the length. The
  library's \<^verbatim>\<open>MultiAsset\<close> and \<^verbatim>\<open>Assets\<close> maps are association lists too, keyed by bytes;
  the library keeps their keys sorted, which nothing below observes except the order of
  the preview rows.
\<close>

type_synonym wire_amount = "(string \<times> int) list"
type_synonym js_assets = "(string \<times> (string \<times> int) list) list"
type_synonym multi_asset = "(byte list \<times> (byte list \<times> int) list) list"

record utxo =
  tx_hash :: string
  output_index :: nat
  utxo_amount :: wire_amount

record csl_value =
  coin :: int
  multiasset :: "multi_asset option"

definition addAssetStep :: "multi_asset \<Rightarrow> string \<times> int \<Rightarrow> build_error + multi_asset" where
  "addAssetStep ma a =
     (let unit = toLowerCase (fst a);
          policy = take 56 unit;
          nameHex = drop 56 unit
      in bindE (ScriptHash_from_bytes (hexToBytes policy)) (\<lambda>pid.
         bindE (AssetName_new (hexToBytes nameHex)) (\<lambda>aname.
         bindE (BigNum_from_str (snd a)) (\<lambda>qty.
           let inner = (case map_of ma pid of None \<Rightarrow> [] | Some i \<Rightarrow> i)
           in bindE (case map_of inner aname of
                       None \<Rightarrow> Inr qty
                     | Some prev \<Rightarrow> checked_add prev qty) (\<lambda>q.
                Inr (AList.update pid (AList.update aname q inner) ma))))))"

definition addAssetsToValue :: "csl_value \<Rightarrow> wire_amount \<Rightarrow> build_error + csl_value" where
  "addAssetsToValue v assets =
     (if length assets = 0 then Inr v
      else bindE (foldE addAssetStep assets (case multiasset v of None \<Rightarrow> [] | Some ma \<Rightarrow> ma))
             (\<lambda>ma. Inr (v\<lparr>multiasset := Some ma\<rparr>)))"

definition mergeName :: "(byte list \<times> int) list \<Rightarrow> byte list \<times> int \<Rightarrow> build_error + (byte list \<times> int) list" where
  "mergeName dAssets e =
     bindE (case map_of dAssets (fst e) of
              None \<Rightarrow> Inr (snd e)
            | Some cur \<Rightarrow> checked_add cur (snd e))
       (\<lambda>q. Inr (AList.update (fst e) q dAssets))"

definition mergePolicy :: "multi_asset \<Rightarrow> byte list \<times> (byte list \<times> int) list \<Rightarrow> build_error + multi_asset" where
  "mergePolicy merged e =
     bindE (foldE mergeName (snd e) (case map_of merged (fst e) of None \<Rightarrow> [] | Some d \<Rightarrow> d))
       (\<lambda>dAssets. Inr (AList.update (fst e) dAssets merged))"

definition mergeValue :: "csl_value \<Rightarrow> csl_value \<Rightarrow> build_error + csl_value" where
  "mergeValue a b =
     bindE (checked_add (coin a) (coin b)) (\<lambda>c.
       case multiasset b of
         None \<Rightarrow> Inr \<lparr>coin = c, multiasset = multiasset a\<rparr>
       | Some mb \<Rightarrow>
           bindE (foldE mergePolicy mb (case multiasset a of None \<Rightarrow> [] | Some ma \<Rightarrow> ma))
             (\<lambda>merged. Inr \<lparr>coin = c, multiasset = Some merged\<rparr>))"

text \<open>The value of one UTxO, as both input loops of \<^verbatim>\<open>buildUnsignedTx\<close> compute it.\<close>

definition utxoValue :: "utxo \<Rightarrow> build_error + csl_value" where
  "utxoValue u =
     bindE (TransactionHash_from_bytes (hexToBytes (tx_hash u))) (\<lambda>txHash.
       case find (\<lambda>a. fst a = ''lovelace'') (utxo_amount u) of
         None \<Rightarrow> Inl TypeError
       | Some l \<Rightarrow>
           bindE (BigNum_from_str (snd l)) (\<lambda>c.
             addAssetsToValue \<lparr>coin = c, multiasset = None\<rparr>
               (filter (\<lambda>a. fst a \<noteq> ''lovelace'') (utxo_amount u))))"

definition sumUtxos :: "utxo list \<Rightarrow> build_error + csl_value" where
  "sumUtxos utxos =
     foldE (\<lambda>totalValue u. bindE (utxoValue u) (\<lambda>v. mergeValue totalValue v))
       utxos \<lparr>coin = 0, multiasset = None\<rparr>"

subsection \<open>The JavaScript-side multi-asset arithmetic\<close>

definition jsNameAdd :: "string \<times> int \<Rightarrow> (string \<times> int) list \<Rightarrow> (string \<times> int) list" where
  "jsNameAdd e d =
     AList.update (fst e) (case map_of d (fst e) of None \<Rightarrow> snd e | Some q \<Rightarrow> q + snd e) d"

definition valueToJs :: "csl_value \<Rightarrow> int \<times> js_assets" where
  "valueToJs v =
     (coin v,
      case multiasset v of
        None \<Rightarrow> []
      | Some ma \<Rightarrow>
          fold (\<lambda>e out.
                  let pidHex = bytesToHex (fst e);
                      m0 = (case map_of out pidHex of None \<Rightarrow> [] | Some m' \<Rightarrow> m')
                  in AList.update pidHex
                       (fold (\<lambda>a. jsNameAdd (bytesToHex (fst a), snd a)) (snd e) m0) out)
            ma [])"

definition jsAssetsAdd :: "js_assets \<Rightarrow> js_assets \<Rightarrow> js_assets" where
  "jsAssetsAdd dst add =
     fold (\<lambda>e dst'.
             let d = (case map_of dst' (fst e) of None \<Rightarrow> [] | Some d' \<Rightarrow> d')
             in AList.update (fst e) (fold jsNameAdd (snd e) d) dst')
       add dst"

definition jsAssetsFromOutputSpec :: "wire_amount \<Rightarrow> js_assets" where
  "jsAssetsFromOutputSpec specAssets =
     fold (\<lambda>a m'.
             let unit = toLowerCase (fst a);
                 pid = take 56 unit;
                 nm = drop 56 unit;
                 d = (case map_of m' pid of None \<Rightarrow> [] | Some d' \<Rightarrow> d')
             in AList.update pid (jsNameAdd (nm, snd a) d) m')
       specAssets []"

definition jsSubName ::
  "(string \<times> int) list \<Rightarrow> (string \<times> int) list option \<Rightarrow> string \<times> int
     \<Rightarrow> build_error + (string \<times> int) list option" where
  "jsSubName innerB resInner e =
     (let qb = (case map_of innerB (fst e) of None \<Rightarrow> 0 | Some q \<Rightarrow> q);
          diff = snd e - qb
      in if diff < 0 then Inl InsufficientTokens
         else if diff > 0
           then Inr (Some (AList.update (fst e) diff (case resInner of None \<Rightarrow> [] | Some r \<Rightarrow> r)))
         else Inr resInner)"

definition jsAssetsSub :: "js_assets \<Rightarrow> js_assets \<Rightarrow> build_error + js_assets" where
  "jsAssetsSub a b =
     foldE (\<lambda>out e.
              let innerB = (case map_of b (fst e) of None \<Rightarrow> [] | Some i \<Rightarrow> i)
              in bindE (foldE (jsSubName innerB) (snd e) None) (\<lambda>resInner.
                   case resInner of
                     None \<Rightarrow> Inr out
                   | Some r \<Rightarrow> Inr (AList.update (fst e) r out)))
       a []"

definition jsAssetsIsEmpty :: "js_assets \<Rightarrow> bool" where
  "jsAssetsIsEmpty m' = list_all (\<lambda>e. length (snd e) = 0) m'"

definition jsAssetsToValue :: "csl_value \<Rightarrow> js_assets \<Rightarrow> build_error + csl_value" where
  "jsAssetsToValue v assetsMap =
     bindE (foldE (\<lambda>ma e.
                     bindE (ScriptHash_from_bytes (hexToBytes (fst e))) (\<lambda>pid.
                     bindE (foldE (\<lambda>assets a.
                                     bindE (AssetName_new (hexToBytes (fst a))) (\<lambda>nm.
                                     bindE (BigNum_from_str (snd a)) (\<lambda>q.
                                       Inr (AList.update nm q assets))))
                              (snd e) [])
                       (\<lambda>assets. Inr (AList.update pid assets ma))))
              assetsMap [])
       (\<lambda>ma. Inr (v\<lparr>multiasset := Some ma\<rparr>))"

definition bumpAdaIfTokens :: "int \<Rightarrow> csl_value \<Rightarrow> build_error + csl_value" where
  "bumpAdaIfTokens MIN_ADA v =
     (case multiasset v of
        None \<Rightarrow> Inr v
      | Some ma \<Rightarrow>
          bindE (BigNum_from_str MIN_ADA) (\<lambda>floor'.
            Inr (if coin v < floor' then v\<lparr>coin := floor'\<rparr> else v)))"

section \<open>Transactions, witness sets and their serialized form\<close>

record tx_input =
  transaction_id :: "byte list"
  input_index :: nat

record tx_output =
  address :: string
  amount :: csl_value

record tx_body =
  inputs :: "tx_input list"
  outputs :: "tx_output list"
  fee :: int
  required_signers :: "byte list list"

datatype vkeywitness = Vkeywitness (vkey: "byte list") (signature: "byte list")

text \<open>
  A witness set holds key witnesses and native scripts; \<open>other_fields\<close> stands for every
  other field a witness set can carry (bootstrap witnesses, Plutus scripts and data,
  redeemers). \<^verbatim>\<open>CSL.TransactionWitnessSet.new()\<close> has none of them.
\<close>

record witness_set =
  vkeys :: "vkeywitness list option"
  native_scripts :: "native_script list option"
  other_fields :: "string list"

datatype transaction = Transaction (body: tx_body) (tx_witness_set: witness_set)

text \<open>
  A hex string that is handed to one of the library's \<^verbatim>\<open>from_bytes\<close> parsers is modelled by
  what it decodes to: a transaction body, a native script, a witness set, a full
  transaction, or bytes that none of the parsers accepts. \<^verbatim>\<open>to_bytes\<close> is the matching
  constructor, so that parsing what the library serialized gives the value back, and two
  serialized values are equal exactly when the values are; in particular the list of key
  witnesses is serialized in the order in which \<^verbatim>\<open>Vkeywitnesses.add\<close> built it.
\<close>

datatype cbor =
    BodyCbor tx_body
  | NativeScriptCbor native_script
  | WitnessSetCbor witness_set
  | TransactionCbor transaction
  | OtherBytes string

fun TransactionBody_from_bytes :: "cbor \<Rightarrow> tx_body option" where
  "TransactionBody_from_bytes (BodyCbor b) = Some b"
| "TransactionBody_from_bytes c = None"

fun NativeScript_from_bytes :: "cbor \<Rightarrow> native_script option" where
  "NativeScript_from_bytes (NativeScriptCbor ns) = Some ns"
| "NativeScript_from_bytes c = None"

fun TransactionWitnessSet_from_bytes :: "cbor \<Rightarrow> witness_set option" where
  "TransactionWitnessSet_from_bytes (WitnessSetCbor ws) = Some ws"
| "TransactionWitnessSet_from_bytes c = None"

fun Transaction_from_bytes :: "cbor \<Rightarrow> transaction option" where
  "Transaction_from_bytes (TransactionCbor tx) = Some tx"
| "Transaction_from_bytes c = None"

definition TransactionWitnessSet_new :: witness_set where
  "TransactionWitnessSet_new = \<lparr>vkeys = None, native_scripts = None, other_fields = []\<rparr>"

section \<open>The chain gateway and the library's opaque functions\<close>

record protocol =
  min_fee_a :: int
  min_fee_b :: int
  pool_deposit :: int
  key_deposit :: int
  max_val_size :: "nat option"
  max_tx_size :: "nat option"
  coins_per_utxo_size :: "int option"
  coins_per_utxo_byte :: "int option"

text \<open>
  The reply of \<^verbatim>\<open>bf.submitTx\<close>: the transaction hash, or a rejected promise with the node's
  diagnostic \<^verbatim>\<open>e.response.data\<close> (absent on a network error) and the text \<^verbatim>\<open>String(e)\<close>.
\<close>

datatype gateway_reply = Accepted string | Rejected "string option" string

text \<open>
  \<^verbatim>\<open>bfClient\<close> returns three functions. One record of replies describes the indexer at the
  moment of a request; \<open>None\<close> is a rejected promise.
\<close>

record gateway =
  protocolParams :: "protocol option"
  utxosByAddress :: "string \<Rightarrow> utxo list option"
  submitTx :: "cbor \<Rightarrow> gateway_reply"

text \<open>
  What the serialization library computes and this repository only calls: whether a
  string is a bech32 address, whether the transaction builder accepts the inputs, outputs
  and fee it is given (value size, minimum UTxO value, maximum transaction size), and
  the hashes of a transaction body, of a public key and of a native script.
\<close>

record csl =
  bech32_valid :: "string \<Rightarrow> bool"
  tb_accepts :: "protocol \<Rightarrow> tx_body \<Rightarrow> bool"
  hash_transaction :: "tx_body \<Rightarrow> byte list"
  public_key_hash :: "byte list \<Rightarrow> byte list"
  native_script_hash :: "native_script \<Rightarrow> byte list"

record process_env =
  MIN_ADA_LOVELACE :: "int option"
  FIXED_FEE_LOVELACE :: "int option"

definition MIN_ADA :: "process_env \<Rightarrow> int" where
  "MIN_ADA pe = (case MIN_ADA_LOVELACE pe of None \<Rightarrow> 2000000 | Some v \<Rightarrow> v)"

definition FIXED_FEE :: "process_env \<Rightarrow> int" where
  "FIXED_FEE pe = (case FIXED_FEE_LOVELACE pe of None \<Rightarrow> 1000000 | Some v \<Rightarrow> v)"

section \<open>The transaction builder (buildUnsignedTx, fixed-fee version)\<close>

text \<open>
  The builder with explicit change and a fixed fee, whose arithmetic is all in this
  repository. (The other version of \<^verbatim>\<open>buildUnsignedTx\<close> hands fee and change to the
  library's \<^verbatim>\<open>add_change_if_needed\<close>.)
\<close>

record out_request =
  out_address :: string
  lovelace :: "int option"
  assets :: wire_amount

record out_spec =
  spec_address :: string
  spec_coin :: int
  assetsMap :: js_assets

text \<open>
  The argument object of \<^verbatim>\<open>buildUnsignedTx\<close>. The fields \<open>optRequiredKeyHashes\<close>,
  \<open>optMRequired\<close> and \<open>optOutputs\<close> are \<^verbatim>\<open>requiredKeyHashes\<close>, \<^verbatim>\<open>mRequired\<close> and \<^verbatim>\<open>outputs\<close>.
\<close>

record build_opts =
  bf :: gateway
  network :: string
  multisigAddress :: string
  paymentScriptHex :: cbor
  optRequiredKeyHashes :: "string list"
  optMRequired :: nat
  mode :: string
  destAddress :: "string option"
  optOutputs :: "out_request list option"

record preview_row =
  row_address :: string
  row_lovelace :: int
  row_assets :: wire_amount

record preview =
  pv_mode :: string
  selectedInputs :: "utxo list"
  computedOutputs :: "preview_row list"
  pv_fee :: int
  changeCoin :: int
  changeHasTokens :: bool

record build_artifact =
  txId :: string
  txBodyHex :: cbor
  txHex :: cbor
  initialWitnessSetHex :: cbor
  preview :: preview

text \<open>JavaScript truthiness of an optional string: \<^verbatim>\<open>undefined\<close>, \<^verbatim>\<open>null\<close> and \<^verbatim>\<open>''\<close> are falsy.\<close>

fun truthy :: "string option \<Rightarrow> bool" where
  "truthy None = False"
| "truthy (Some s) = (s \<noteq> [])"

text \<open>Step 2: the output specifications and the aggregates \<^verbatim>\<open>outCoin\<close>, \<^verbatim>\<open>outAssets\<close>.\<close>

definition explicitStep ::
  "int \<Rightarrow> out_request \<Rightarrow> out_spec list \<times> int \<times> js_assets \<Rightarrow> out_spec list \<times> int \<times> js_assets" where
  "explicitStep minAda o' acc =
     (let coin' = (case lovelace o' of None \<Rightarrow> 0 | Some q \<Rightarrow> q);
          aMap = jsAssetsFromOutputSpec (assets o');
          effectiveCoin = (if jsAssetsIsEmpty aMap then coin'
                           else (if coin' \<ge> minAda then coin' else minAda))
      in (fst acc @ [\<lparr>spec_address = out_address o', spec_coin = effectiveCoin, assetsMap = aMap\<rparr>],
          fst (snd acc) + effectiveCoin,
          jsAssetsAdd (snd (snd acc)) aMap))"

definition planOutputs ::
  "process_env \<Rightarrow> build_opts \<Rightarrow> int \<times> js_assets \<Rightarrow> build_error + out_spec list \<times> int \<times> js_assets" where
  "planOutputs pe opts totalJS =
     (if mode opts = ''sendAll'' then
        (if \<not> truthy (destAddress opts) then Inl DestAddressMissing
         else Inr ([\<lparr>spec_address = the (destAddress opts), spec_coin = MIN_ADA pe,
                      assetsMap = snd totalJS\<rparr>],
                   0 + MIN_ADA pe,
                   jsAssetsAdd [] (snd totalJS)))
      else if mode opts = ''explicit'' then
        Inr (fold (explicitStep (MIN_ADA pe))
               (case optOutputs opts of None \<Rightarrow> [] | Some os \<Rightarrow> os) ([], 0, []))
      else Inl InvalidMode)"

text \<open>Step 4: one output of the transaction from a coin and a JavaScript asset map.\<close>

definition mkValue :: "int \<Rightarrow> int \<Rightarrow> js_assets \<Rightarrow> build_error + csl_value" where
  "mkValue minAda c assetsMap' =
     bindE (BigNum_from_str c) (\<lambda>c'.
     bindE (if \<not> jsAssetsIsEmpty assetsMap'
            then jsAssetsToValue \<lparr>coin = c', multiasset = None\<rparr> assetsMap'
            else Inr \<lparr>coin = c', multiasset = None\<rparr>) (\<lambda>v.
       if multiasset v \<noteq> None then bumpAdaIfTokens minAda v else Inr v))"

definition specToOutput :: "csl \<Rightarrow> int \<Rightarrow> out_spec \<Rightarrow> build_error + tx_output" where
  "specToOutput lib minAda spec =
     bindE (mkValue minAda (spec_coin spec) (assetsMap spec)) (\<lambda>v.
       if bech32_valid lib (spec_address spec)
       then Inr \<lparr>address = spec_address spec, amount = v\<rparr>
       else Inl CslError)"

definition changeOutputs ::
  "csl \<Rightarrow> int \<Rightarrow> build_opts \<Rightarrow> int \<Rightarrow> js_assets \<Rightarrow> build_error + tx_output list" where
  "changeOutputs lib minAda opts changeCoin' changeAssets =
     (if changeCoin' > 0 \<or> \<not> jsAssetsIsEmpty changeAssets then
        bindE (mkValue minAda (if changeCoin' < 0 then 0 else changeCoin') changeAssets) (\<lambda>changeVal.
          if mode opts = ''sendAll''
          then (if bech32_valid lib (the (destAddress opts))
                then Inr [\<lparr>address = the (destAddress opts), amount = changeVal\<rparr>]
                else Inl CslError)
          else Inr [\<lparr>address = multisigAddress opts, amount = changeVal\<rparr>])
      else Inr [])"

definition requiredSigners :: "string list \<Rightarrow> byte list list" where
  "requiredSigners khs =
     filter (\<lambda>b. length b = 28) (map (\<lambda>khHex. hexToBytes (toLowerCase khHex)) khs)"

definition previewRow :: "tx_output \<Rightarrow> preview_row" where
  "previewRow o' =
     \<lparr>row_address = address o',
      row_lovelace = coin (amount o'),
      row_assets =
        (case multiasset (amount o') of
           None \<Rightarrow> []
         | Some ma \<Rightarrow>
             concat (map (\<lambda>e. map (\<lambda>a. (bytesToHex (fst e) @ bytesToHex (fst a), snd a)) (snd e)) ma))\<rparr>"

definition buildUnsignedTx :: "csl \<Rightarrow> process_env \<Rightarrow> build_opts \<Rightarrow> build_error + build_artifact" where
  "buildUnsignedTx lib pe opts =
     (case protocolParams (bf opts) of
        None \<Rightarrow> Inl ChainError
      | Some protocol' \<Rightarrow>
     if \<not> bech32_valid lib (multisigAddress opts) then Inl CslError else
     (case utxosByAddress (bf opts) (multisigAddress opts) of
        None \<Rightarrow> Inl ChainError
      | Some utxos \<Rightarrow>
     bindE (sumUtxos utxos) (\<lambda>totalValue.
     let totalJS = valueToJs totalValue in
     bindE (planOutputs pe opts totalJS) (\<lambda>plan.
     let outSpecs = fst plan; outCoin = fst (snd plan); outAssets = snd (snd plan);
         fee' = FIXED_FEE pe
     in
     if \<not> (fst totalJS \<ge> outCoin + fee') then Inl InsufficientAda else
     bindE (jsAssetsSub (snd totalJS) outAssets) (\<lambda>changeAssets.
     let changeCoin' = fst totalJS - outCoin - fee' in
     if \<not> jsAssetsIsEmpty changeAssets \<and> \<not> (changeCoin' \<ge> MIN_ADA pe)
     then Inl ChangeBelowMinAda else
     bindE (foldE (\<lambda>outs spec. bindE (specToOutput lib (MIN_ADA pe) spec) (\<lambda>o'. Inr (outs @ [o'])))
              outSpecs []) (\<lambda>outs.
     bindE (changeOutputs lib (MIN_ADA pe) opts changeCoin' changeAssets) (\<lambda>change.
     bindE (BigNum_from_str fee') (\<lambda>feeBn.
     let body' = \<lparr>inputs = map (\<lambda>u. \<lparr>transaction_id = hexToBytes (tx_hash u),
                                        input_index = output_index u\<rparr>) utxos,
                  outputs = outs @ change,
                  fee = feeBn,
                  required_signers = requiredSigners (optRequiredKeyHashes opts)\<rparr>
     in
     if \<not> tb_accepts lib protocol' body' then Inl CslError else
     (case NativeScript_from_bytes (paymentScriptHex opts) of
        None \<Rightarrow> Inl CslError
      | Some ns \<Rightarrow>
          let ws = TransactionWitnessSet_new\<lparr>native_scripts := Some [ns]\<rparr> in
          Inr \<lparr>txId = bytesToHex (hash_transaction lib body'),
               txBodyHex = BodyCbor body',
               txHex = TransactionCbor (Transaction body' ws),
               initialWitnessSetHex = WitnessSetCbor ws,
               preview = \<lparr>pv_mode = mode opts, selectedInputs = utxos,
                          computedOutputs = map previewRow (outputs body'),
                          pv_fee = fee', changeCoin = changeCoin',
                          changeHasTokens = (\<not> jsAssetsIsEmpty changeAssets)\<rparr>\<rparr>)))))))))"

section \<open>The session store (txStore.js)\<close>

text \<open>
  A record of the store; \<open>recTxHex\<close>, \<open>recTxBodyHex\<close>, \<open>rec_m\<close> and \<open>recPreview\<close> are
  the fields \<^verbatim>\<open>txHex\<close>, \<^verbatim>\<open>txBodyHex\<close>, \<^verbatim>\<open>m\<close> and \<^verbatim>\<open>preview\<close>. \<open>witnesses\<close> is the
  \<^verbatim>\<open>Map<keyhash, hex>\<close>.
\<close>

record tx_record =
  recTxHex :: cbor
  recTxBodyHex :: cbor
  scriptHex :: cbor
  rec_m :: nat
  signersKeyHashes :: "string list"
  witnesses :: "(string \<times> cbor) list"
  recPreview :: preview

type_synonym store = "(string \<times> tx_record) list"

definition createTxRecord ::
  "string \<Rightarrow> cbor \<Rightarrow> cbor \<Rightarrow> cbor \<Rightarrow> nat \<Rightarrow> string list \<Rightarrow> preview \<Rightarrow> store \<Rightarrow> store" where
  "createTxRecord txId' txHex' txBodyHex' scriptHex' m' signers preview' txs' =
     AList.update txId'
       \<lparr>recTxHex = txHex', recTxBodyHex = txBodyHex', scriptHex = scriptHex', rec_m = m',
        signersKeyHashes = signers, witnesses = [], recPreview = preview'\<rparr> txs'"

definition getTxRecord :: "string \<Rightarrow> store \<Rightarrow> tx_record option" where
  "getTxRecord txId' txs' = map_of txs' txId'"

datatype add_result = AddOk nat nat | AddNotFound

definition addWitness :: "string \<Rightarrow> string \<Rightarrow> cbor \<Rightarrow> store \<Rightarrow> add_result \<times> store" where
  "addWitness txId' keyHashHex witnessHex' txs' =
     (case map_of txs' txId' of
        None \<Rightarrow> (AddNotFound, txs')
      | Some rec \<Rightarrow>
          let rec' = rec\<lparr>witnesses := AList.update keyHashHex witnessHex' (witnesses rec)\<rparr>
          in (AddOk (length (witnesses rec')) (rec_m rec'), AList.update txId' rec' txs'))"

record status_view =
  status_m :: nat
  status_required :: "string list"
  status_collected :: "string list"
  status_preview :: preview

definition status :: "string \<Rightarrow> store \<Rightarrow> status_view option" where
  "status txId' txs' =
     (case map_of txs' txId' of
        None \<Rightarrow> None
      | Some r \<Rightarrow> Some \<lparr>status_m = rec_m r, status_required = signersKeyHashes r,
                        status_collected = map fst (witnesses r), status_preview = recPreview r\<rparr>)"

definition clearTx :: "string \<Rightarrow> store \<Rightarrow> store" where
  "clearTx txId' txs' = AList.delete txId' txs'"

section \<open>The assembler (assembleAndSerializeTx)\<close>

datatype js_exception = CslException | GatewayException string

text \<open>
  The loop over \<^verbatim>\<open>witnessHexes\<close>: every stored witness is parsed as a witness set and its
  key witnesses are appended to \<^verbatim>\<open>agg\<close>. (A library version whose \<^verbatim>\<open>Vkeywitnesses.add\<close>
  drops a key witness equal to one already present is not modelled.)
\<close>

definition aggVkeys :: "cbor list \<Rightarrow> js_exception + vkeywitness list" where
  "aggVkeys witnessHexes =
     foldE (\<lambda>agg w.
              case TransactionWitnessSet_from_bytes w of
                None \<Rightarrow> Inl CslException
              | Some ws \<Rightarrow> Inr (case vkeys ws of None \<Rightarrow> agg | Some vs \<Rightarrow> agg @ vs))
       witnessHexes []"

definition assembleAndSerializeTx :: "cbor \<Rightarrow> cbor \<Rightarrow> cbor list \<Rightarrow> js_exception + cbor" where
  "assembleAndSerializeTx txBodyHex' scriptHex' witnessHexes =
     (case TransactionBody_from_bytes txBodyHex' of
        None \<Rightarrow> Inl CslException
      | Some body' \<Rightarrow>
     (case NativeScript_from_bytes scriptHex' of
        None \<Rightarrow> Inl CslException
      | Some ns \<Rightarrow>
          bindE (aggVkeys witnessHexes) (\<lambda>agg.
            let wsAll = TransactionWitnessSet_new\<lparr>native_scripts := Some [ns]\<rparr>;
                wsAll' = (if length agg > 0 then wsAll\<lparr>vkeys := Some agg\<rparr> else wsAll)
            in Inr (TransactionCbor (Transaction body' wsAll')))))"

section \<open>The server: configuration, state and request handlers\<close>

text \<open>
  The constants of the server with the hard-coded payment script: the parsed
  \<^verbatim>\<open>PAYMENT_SCRIPT_CBOR_HEX\<close>, the derived address, and what the process reads from its
  environment and from the library.
\<close>

record server_config =
  PAYMENT_SCRIPT :: native_script
  MULTISIG_ADDRESS :: string
  cfg_lib :: csl
  cfg_env :: process_env

definition PAYMENT_SUMMARY :: "server_config \<Rightarrow> walk_exception + script_summary" where
  "PAYMENT_SUMMARY cfg = deriveSummary (native_script_hash (cfg_lib cfg)) (PAYMENT_SCRIPT cfg)"

text \<open>
  \<^verbatim>\<open>PAYMENT_SUMMARY\<close> is computed while the module loads; an exception of
  \<^verbatim>\<open>deriveSummary\<close> ends the process there. The two constants read off the summary
  exist only in a process that got past that line (\<open>startup_ok\<close> below).
\<close>

definition REQUIRED_KEY_HASHES :: "server_config \<Rightarrow> string list" where
  "REQUIRED_KEY_HASHES cfg = map toLowerCase (requiredKeyHashes (projr (PAYMENT_SUMMARY cfg)))"

definition M_REQUIRED :: "server_config \<Rightarrow> nat" where
  "M_REQUIRED cfg = mRequired (projr (PAYMENT_SUMMARY cfg))"

text \<open>
  The process serves requests only if the summary was derived and the script is 2-of-2;
  otherwise it has exited at start-up.
\<close>

definition startup_ok :: "server_config \<Rightarrow> bool" where
  "startup_ok cfg =
     (\<not> isl (PAYMENT_SUMMARY cfg)
      \<and> \<not> (M_REQUIRED cfg \<noteq> 2 \<or> length (REQUIRED_KEY_HASHES cfg) \<noteq> 2))"

record server_state =
  txs :: store
  latestSession :: "(string \<times> preview) option"

datatype submit_detail = ResponseData string | ExceptionText js_exception

text \<open>
  The JSON replies. \<open>SignerNotAllowed\<close> is the 403 \<^verbatim>\<open>signer_not_allowed\<close> with
  \<^verbatim>\<open>foundKeyHashes\<close> and \<^verbatim>\<open>required\<close>; \<open>WitnessAccepted\<close> carries \<^verbatim>\<open>accepted\<close>, \<^verbatim>\<open>ignored\<close>,
  \<^verbatim>\<open>collected\<close> and \<^verbatim>\<open>required\<close>; \<open>SignerNotInRequiredSet\<close> is the 400
  \<^verbatim>\<open>signer_not_in_required_set\<close> and \<open>WitnessStored\<close> the reply with \<^verbatim>\<open>collected\<close> and
  \<^verbatim>\<open>required\<close> of the two earlier versions of the witness route; \<open>NotEnoughWitnesses\<close> carries \<^verbatim>\<open>collected\<close> and
  \<^verbatim>\<open>required\<close>; \<open>SubmitFailed\<close> is the 500 \<^verbatim>\<open>submit_failed\<close> with its \<^verbatim>\<open>detail\<close>;
  \<open>ServerError\<close> is the 500 \<^verbatim>\<open>server_error\<close> of the outer \<^verbatim>\<open>catch\<close>.
\<close>

datatype response =
    MissingParams
  | NotFound
  | InvalidWitnessCbor
  | EmptyVkeys
  | SignerNotAllowed "string list" "string list"
  | SignerNotInRequiredSet
  | StoreError
  | WitnessAccepted "string list" "string list" nat nat
  | WitnessStored nat nat
  | NotEnoughWitnesses nat nat
  | Submitted string
  | SubmitFailed submit_detail
  | ServerError build_error
  | Created string preview nat "string list" string
  | ResetOk

record create_request =
  c_mode :: "string option"
  c_destAddress :: "string option"
  c_outputs :: "out_request list option"

definition create_handler ::
  "server_config \<Rightarrow> gateway \<Rightarrow> create_request \<Rightarrow> server_state \<Rightarrow> response \<times> server_state" where
  "create_handler cfg gw req st =
     (let mode' = (case c_mode req of None \<Rightarrow> ''sendAll'' | Some md \<Rightarrow> md);
          normalizedRequired = REQUIRED_KEY_HASHES cfg;
          mReq = M_REQUIRED cfg;
          paymentScriptHex' = NativeScriptCbor (PAYMENT_SCRIPT cfg)
      in case buildUnsignedTx (cfg_lib cfg) (cfg_env cfg)
                \<lparr>bf = gw, network = ''mainnet'', multisigAddress = MULTISIG_ADDRESS cfg,
                 paymentScriptHex = paymentScriptHex',
                 optRequiredKeyHashes = normalizedRequired, optMRequired = mReq,
                 mode = mode', destAddress = c_destAddress req, optOutputs = c_outputs req\<rparr> of
           Inl e \<Rightarrow> (ServerError e, st)
         | Inr build \<Rightarrow>
             (Created (txId build) (preview build) mReq normalizedRequired (MULTISIG_ADDRESS cfg),
              \<lparr>txs = createTxRecord (txId build) (txHex build) (txBodyHex build) paymentScriptHex'
                       mReq normalizedRequired (preview build) (txs st),
               latestSession = Some (txId build, preview build)\<rparr>))"

record witness_request =
  w_txId :: "string option"
  signerKeyHashHex :: "string option"
  witnessHex :: "cbor option"

fun truthy_hex :: "cbor option \<Rightarrow> bool" where
  "truthy_hex None = False"
| "truthy_hex (Some (OtherBytes s)) = (s \<noteq> [])"
| "truthy_hex (Some c) = True"

text \<open>
  The nested \<^verbatim>\<open>try\<close> of the witness route: a witness set, else a full transaction, else
  \<^verbatim>\<open>invalid_witness_cbor\<close> (here \<open>Inl ()\<close>).
\<close>

definition extractVkeys :: "cbor \<Rightarrow> unit + vkeywitness list option" where
  "extractVkeys w =
     (case TransactionWitnessSet_from_bytes w of
        Some ws \<Rightarrow> Inr (vkeys ws)
      | None \<Rightarrow> (case Transaction_from_bytes w of
                   Some tx \<Rightarrow> Inr (vkeys (tx_witness_set tx))
                 | None \<Rightarrow> Inl ()))"

definition Set_from :: "'a list \<Rightarrow> 'a list" where
  "Set_from xs = fold set_add xs []"

definition keyHashHexOf :: "csl \<Rightarrow> vkeywitness \<Rightarrow> string" where
  "keyHashHexOf lib vw = toLowerCase (bytesToHex (public_key_hash lib (vkey vw)))"

definition wsSingle :: "vkeywitness \<Rightarrow> cbor" where
  "wsSingle vw = WitnessSetCbor (TransactionWitnessSet_new\<lparr>vkeys := Some [vw]\<rparr>)"

text \<open>
  The loop over the key witnesses. The result is \<open>(failed, accepted, ignored, store)\<close>;
  \<open>failed\<close> is the early \<^verbatim>\<open>return res.status(500)\<close> when \<^verbatim>\<open>addWitness\<close> does not find the
  record.
\<close>

fun witnessLoop ::
  "csl \<Rightarrow> string \<Rightarrow> string list \<Rightarrow> vkeywitness list \<Rightarrow> string list \<Rightarrow> string list \<Rightarrow> store
     \<Rightarrow> bool \<times> string list \<times> string list \<times> store" where
  "witnessLoop lib txId' requiredSet [] accepted ignored txs' = (False, accepted, ignored, txs')"
| "witnessLoop lib txId' requiredSet (vw # rest) accepted ignored txs' =
     (let khHex = keyHashHexOf lib vw in
      if khHex \<notin> set requiredSet
      then witnessLoop lib txId' requiredSet rest accepted (ignored @ [khHex]) txs'
      else (case addWitness txId' khHex (wsSingle vw) txs' of
              (AddNotFound, txs'') \<Rightarrow> (True, accepted, ignored, txs'')
            | (AddOk c m', txs'') \<Rightarrow>
                witnessLoop lib txId' requiredSet rest (accepted @ [khHex]) ignored txs''))"

definition witness_handler ::
  "csl \<Rightarrow> witness_request \<Rightarrow> server_state \<Rightarrow> response \<times> server_state" where
  "witness_handler lib req st =
     (if \<not> truthy (w_txId req) \<or> \<not> truthy_hex (witnessHex req) then (MissingParams, st)
      else
        let txId' = the (w_txId req) in
        case getTxRecord txId' (txs st) of
          None \<Rightarrow> (NotFound, st)
        | Some rec \<Rightarrow>
            let requiredSet = Set_from (map toLowerCase (signersKeyHashes rec)) in
            case extractVkeys (the (witnessHex req)) of
              Inl u \<Rightarrow> (InvalidWitnessCbor, st)
            | Inr vkeys' \<Rightarrow>
                if vkeys' = None \<or> length (the vkeys') = 0 then (EmptyVkeys, st)
                else
                  (case witnessLoop lib txId' requiredSet (the vkeys') [] [] (txs st) of
                     (failed, accepted, ignored, txs') \<Rightarrow>
                       let st' = st\<lparr>txs := txs'\<rparr> in
                       if failed then (StoreError, st')
                       else if length accepted = 0
                         then (SignerNotAllowed ignored requiredSet, st')
                       else (case status txId' txs' of
                               None \<Rightarrow> (ServerError TypeError, st')
                             | Some r2 \<Rightarrow>
                                 (WitnessAccepted accepted ignored
                                    (length (status_collected r2)) (status_m r2), st'))))"

text \<open>
  The repository holds two earlier versions of the server, and their witness route works
  differently: the submission is attributed to the key hash the client declares in
  \<^verbatim>\<open>signerKeyHashHex\<close>, or, when none is declared, to the hash of the vkey of the first key
  witness of the blob; if that key hash is on the session's allow-list, the blob is
  stored under it as it was received.

  \<open>signer_server_js\<close> is the part of the route of \<^verbatim>\<open>src/server.js\<close> that determines
  \<^verbatim>\<open>signer\<close>; \<open>Inl\<close> is a reply sent from there. The blob is parsed only when no
  signer is declared, and only as a witness set; an exception of the parser reaches the
  outer \<^verbatim>\<open>catch\<close> (500 \<^verbatim>\<open>server_error\<close>).
\<close>

definition signer_server_js :: "csl \<Rightarrow> string option \<Rightarrow> cbor \<Rightarrow> response + string" where
  "signer_server_js lib declared w =
     (if \<not> truthy declared then
        (case TransactionWitnessSet_from_bytes w of
           None \<Rightarrow> Inl (ServerError CslError)
         | Some ws \<Rightarrow>
             let vkeys' = vkeys ws in
             if vkeys' = None \<or> length (the vkeys') = 0 then Inl EmptyVkeys
             else Inr (bytesToHex (public_key_hash lib (vkey (the vkeys' ! 0)))))
      else Inr (the declared))"

definition witness_handler_server_js ::
  "csl \<Rightarrow> witness_request \<Rightarrow> server_state \<Rightarrow> response \<times> server_state" where
  "witness_handler_server_js lib req st =
     (if \<not> truthy (w_txId req) \<or> \<not> truthy_hex (witnessHex req) then (MissingParams, st)
      else
        let txId' = the (w_txId req); witnessHex' = the (witnessHex req) in
        case getTxRecord txId' (txs st) of
          None \<Rightarrow> (NotFound, st)
        | Some rec \<Rightarrow>
            (case signer_server_js lib (signerKeyHashHex req) witnessHex' of
               Inl reply \<Rightarrow> (reply, st)
             | Inr signer \<Rightarrow>
                 if signer \<notin> set (signersKeyHashes rec) then (SignerNotInRequiredSet, st)
                 else (case addWitness txId' signer witnessHex' (txs st) of
                         (AddNotFound, txs') \<Rightarrow> (StoreError, st\<lparr>txs := txs'\<rparr>)
                       | (AddOk c m', txs') \<Rightarrow> (WitnessStored c m', st\<lparr>txs := txs'\<rparr>))))"

text \<open>
  The witness route of the server with the hard-coded allow-list (the first server of
  \<^verbatim>\<open>src/unnamed/part_001\<close>): the blob is always parsed, as a witness set or else as a full
  transaction (\<^verbatim>\<open>invalid_witness_cbor\<close> otherwise), and the signer is lower-cased.
\<close>

definition signer_allowlist :: "csl \<Rightarrow> string option \<Rightarrow> cbor \<Rightarrow> response + string" where
  "signer_allowlist lib declared w =
     (case extractVkeys w of
        Inl u \<Rightarrow> Inl InvalidWitnessCbor
      | Inr vkeys' \<Rightarrow>
          if \<not> truthy declared then
            (if vkeys' = None \<or> length (the vkeys') = 0 then Inl EmptyVkeys
             else Inr (bytesToHex (public_key_hash lib (vkey (the vkeys' ! 0)))))
          else Inr (the declared))"

definition witness_handler_allowlist ::
  "csl \<Rightarrow> witness_request \<Rightarrow> server_state \<Rightarrow> response \<times> server_state" where
  "witness_handler_allowlist lib req st =
     (if \<not> truthy (w_txId req) \<or> \<not> truthy_hex (witnessHex req) then (MissingParams, st)
      else
        let txId' = the (w_txId req); witnessHex' = the (witnessHex req) in
        case getTxRecord txId' (txs st) of
          None \<Rightarrow> (NotFound, st)
        | Some rec \<Rightarrow>
            (case signer_allowlist lib (signerKeyHashHex req) witnessHex' of
               Inl reply \<Rightarrow> (reply, st)
             | Inr signer \<Rightarrow>
                 let normalizedSigner = toLowerCase signer in
                 if normalizedSigner \<notin> set (signersKeyHashes rec) then (SignerNotInRequiredSet, st)
                 else (case addWitness txId' normalizedSigner witnessHex' (txs st) of
                         (AddNotFound, txs') \<Rightarrow> (StoreError, st\<lparr>txs := txs'\<rparr>)
                       | (AddOk c m', txs') \<Rightarrow> (WitnessStored c m', st\<lparr>txs := txs'\<rparr>))))"

definition reset_handler :: "string option \<Rightarrow> server_state \<Rightarrow> response \<times> server_state" where
  "reset_handler txIdOpt st =
     (ResetOk,
      \<lparr>txs = (if truthy txIdOpt then clearTx (the txIdOpt) (txs st) else txs st),
       latestSession = None\<rparr>)"

text \<open>The detail of a failed submission, \<^verbatim>\<open>e?.response?.data || String(e)\<close>.\<close>

definition rejectionDetail :: "string option \<Rightarrow> string \<Rightarrow> submit_detail" where
  "rejectionDetail data msg =
     (case data of
        None \<Rightarrow> ExceptionText (GatewayException msg)
      | Some d \<Rightarrow> if d \<noteq> [] then ResponseData d else ExceptionText (GatewayException msg))"

text \<open>
  The submit route. The third component of the result is the list of byte strings
  handed to \<^verbatim>\<open>bf.submitTx\<close> while the request was served.
\<close>

definition submit_handler ::
  "gateway \<Rightarrow> string option \<Rightarrow> server_state \<Rightarrow> response \<times> server_state \<times> cbor list" where
  "submit_handler gw txIdOpt st =
     (if \<not> truthy txIdOpt then (MissingParams, st, [])
      else
        let txId' = the txIdOpt in
        case getTxRecord txId' (txs st) of
          None \<Rightarrow> (NotFound, st, [])
        | Some rec \<Rightarrow>
            let collected = length (witnesses rec) in
            if collected < rec_m rec
            then (NotEnoughWitnesses collected (rec_m rec), st, [])
            else
              (case assembleAndSerializeTx (recTxBodyHex rec) (scriptHex rec)
                      (map snd (witnesses rec)) of
                 Inl e \<Rightarrow> (SubmitFailed (ExceptionText e), st, [])
               | Inr txBytes \<Rightarrow>
                   (case submitTx gw txBytes of
                      Accepted txHash \<Rightarrow>
                        (Submitted txHash, st\<lparr>txs := clearTx txId' (txs st)\<rparr>, [txBytes])
                    | Rejected data msg \<Rightarrow>
                        (SubmitFailed (rejectionDetail data msg), st, [txBytes]))))"

text \<open>The states the server can be in: from the empty store, by any sequence of requests.\<close>

inductive reachable :: "server_config \<Rightarrow> server_state \<Rightarrow> bool" for cfg :: server_config where
  start: "startup_ok cfg \<Longrightarrow> reachable cfg \<lparr>txs = [], latestSession = None\<rparr>"
| create: "reachable cfg st \<Longrightarrow> reachable cfg (snd (create_handler cfg gw req st))"
| witness: "reachable cfg st \<Longrightarrow> reachable cfg (snd (witness_handler (cfg_lib cfg) wreq st))"
| submit: "reachable cfg st \<Longrightarrow> reachable cfg (fst (snd (submit_handler gw txIdOpt st)))"
| reset: "reachable cfg st \<Longrightarrow> reachable cfg (snd (reset_handler txIdOpt st))"

section \<open>Notions used to state the claims about sessions\<close>

text \<open>
  What the witness loop leaves in a session's witness map: every key witness whose key
  hash is required, in the order of the blob, each stored under its key hash as a
  witness set of its own.
\<close>

definition storeAccepted ::
  "csl \<Rightarrow> string list \<Rightarrow> vkeywitness list \<Rightarrow> (string \<times> cbor) list \<Rightarrow> (string \<times> cbor) list" where
  "storeAccepted lib requiredSet vks ws =
     fold (\<lambda>vw. AList.update (keyHashHexOf lib vw) (wsSingle vw))
       (filter (\<lambda>vw. keyHashHexOf lib vw \<in> set requiredSet) vks) ws"

text \<open>
  The invariant of a session: its allow-list is lower-case, and every key of its witness
  map is on the allow-list.
\<close>

definition session_inv :: "tx_record \<Rightarrow> bool" where
  "session_inv rec \<longleftrightarrow>
     map toLowerCase (signersKeyHashes rec) = signersKeyHashes rec \<and>
     set (map fst (witnesses rec)) \<subseteq> set (signersKeyHashes rec)"

definition store_inv :: "store \<Rightarrow> bool" where
  "store_inv txs' \<longleftrightarrow> (\<forall>e \<in> set txs'. session_inv (snd e))"

text \<open>A sequence of \<^verbatim>\<open>addWitness\<close> calls on one session, and the assembly the submit route
  then performs on \<^verbatim>\<open>Array.from(rec.witnesses.values())\<close>.\<close>

definition insertWitnesses :: "string \<Rightarrow> (string \<times> cbor) list \<Rightarrow> store \<Rightarrow> store" where
  "insertWitnesses txId' ins txs' =
     fold (\<lambda>e s. snd (addWitness txId' (fst e) (snd e) s)) ins txs'"

definition assembleSession :: "string \<Rightarrow> store \<Rightarrow> (js_exception + cbor) option" where
  "assembleSession txId' txs' =
     (case getTxRecord txId' txs' of
        None \<Rightarrow> None
      | Some rec \<Rightarrow> Some (assembleAndSerializeTx (recTxBodyHex rec) (scriptHex rec)
                           (map snd (witnesses rec))))"

definition vkeysList :: "witness_set \<Rightarrow> vkeywitness list" where
  "vkeysList ws = (case vkeys ws of None \<Rightarrow> [] | Some l \<Rightarrow> l)"

definition parsedVkeys :: "cbor \<Rightarrow> vkeywitness list" where
  "parsedVkeys w =
     (case TransactionWitnessSet_from_bytes w of None \<Rightarrow> [] | Some ws \<Rightarrow> vkeysList ws)"

text \<open>
  Two results of the assembler agree up to the order of the key witnesses: both fail, or
  both are transactions with the same body, the same native scripts and the same key
  witnesses counted with multiplicity.
\<close>

fun sameUpToWitnessOrder :: "js_exception + cbor \<Rightarrow> js_exception + cbor \<Rightarrow> bool" where
  "sameUpToWitnessOrder (Inl e1) (Inl e2) = (e1 = e2)"
| "sameUpToWitnessOrder (Inr (TransactionCbor t1)) (Inr (TransactionCbor t2)) =
     (body t1 = body t2
      \<and> native_scripts (tx_witness_set t1) = native_scripts (tx_witness_set t2)
      \<and> other_fields (tx_witness_set t1) = other_fields (tx_witness_set t2)
      \<and> mset (vkeysList (tx_witness_set t1)) = mset (vkeysList (tx_witness_set t2)))"
| "sameUpToWitnessOrder a b = False"

section \<open>Notions used to state the claims about the builder\<close>

text \<open>
  The key of a wire unit on the JavaScript side (policy id, asset name), the quantity a
  JavaScript asset map holds for a key, the total quantity the requested outputs demand
  for a key, and the total coin of the requested outputs after the floor for
  token-carrying outputs.
\<close>

definition unitKey :: "string \<Rightarrow> string \<times> string" where
  "unitKey unit = (take 56 (toLowerCase unit), drop 56 (toLowerCase unit))"

definition nameQty :: "(string \<times> int) list \<Rightarrow> string \<Rightarrow> int" where
  "nameQty d n = (case map_of d n of None \<Rightarrow> 0 | Some q \<Rightarrow> q)"

definition assetQty :: "js_assets \<Rightarrow> string \<Rightarrow> string \<Rightarrow> int" where
  "assetQty m' p n = (case map_of m' p of None \<Rightarrow> 0 | Some d \<Rightarrow> nameQty d n)"

definition demanded :: "out_request list \<Rightarrow> string \<Rightarrow> string \<Rightarrow> int" where
  "demanded os p n =
     sum_list (map (\<lambda>o'. sum_list (map snd (filter (\<lambda>a. unitKey (fst a) = (p, n)) (assets o')))) os)"

definition requestedCoin :: "int \<Rightarrow> out_request list \<Rightarrow> int" where
  "requestedCoin minAda os =
     sum_list (map (\<lambda>o'. let c = (case lovelace o' of None \<Rightarrow> 0 | Some q \<Rightarrow> q)
                          in if assets o' = [] then c else max c minAda) os)"

text \<open>A well-formed JavaScript asset map: distinct keys, no empty inner map.\<close>

definition wf_assets :: "js_assets \<Rightarrow> bool" where
  "wf_assets m' \<longleftrightarrow>
     distinct (map fst m') \<and> (\<forall>e \<in> set m'. distinct (map fst (snd e)) \<and> snd e \<noteq> [])"

definition entrySum :: "js_assets \<Rightarrow> string \<Rightarrow> string \<Rightarrow> int" where
  "entrySum add p n =
     sum_list (map (\<lambda>e. sum_list (map snd (filter (\<lambda>a. fst a = n) (snd e))))
                 (filter (\<lambda>e. fst e = p) add))"

text \<open>
  The inputs read off the wire: the key under which the library files a unit (the hex of
  the bytes it decodes to), the total quantity of a key over the token entries of all
  UTxOs, and the total of their lovelace entries. \<open>keySum\<close> adds up the entries of an
  association list whose key satisfies a predicate; \<open>hexSum\<close> and \<open>valueSum\<close> are the
  total a library multi-asset, or value, holds under a pair of hex keys.
\<close>

definition keySum :: "('k \<Rightarrow> bool) \<Rightarrow> ('v \<Rightarrow> int) \<Rightarrow> ('k \<times> 'v) list \<Rightarrow> int" where
  "keySum P g m' = sum_list (map (\<lambda>e. if P (fst e) then g (snd e) else 0) m')"

definition hexSum :: "multi_asset \<Rightarrow> string \<Rightarrow> string \<Rightarrow> int" where
  "hexSum ma p n =
     keySum (\<lambda>pid. bytesToHex pid = p) (keySum (\<lambda>nm. bytesToHex nm = n) (\<lambda>q. q)) ma"

definition inputUnitKey :: "string \<Rightarrow> string \<times> string" where
  "inputUnitKey unit =
     (bytesToHex (hexToBytes (take 56 (toLowerCase unit))),
      bytesToHex (hexToBytes (drop 56 (toLowerCase unit))))"

definition wireSum :: "wire_amount \<Rightarrow> string \<Rightarrow> string \<Rightarrow> int" where
  "wireSum as p n = sum_list (map snd (filter (\<lambda>a. inputUnitKey (fst a) = (p, n)) as))"

definition carried :: "utxo list \<Rightarrow> string \<Rightarrow> string \<Rightarrow> int" where
  "carried utxos p n =
     sum_list (map (\<lambda>u. wireSum (filter (\<lambda>a. fst a \<noteq> ''lovelace'') (utxo_amount u)) p n) utxos)"

definition inputCoin :: "utxo list \<Rightarrow> int" where
  "inputCoin utxos =
     sum_list (map (\<lambda>u. case find (\<lambda>a. fst a = ''lovelace'') (utxo_amount u) of
                            None \<Rightarrow> 0 | Some l \<Rightarrow> snd l) utxos)"

definition valueSum :: "csl_value \<Rightarrow> string \<Rightarrow> string \<Rightarrow> int" where
  "valueSum v p n = (case multiasset v of None \<Rightarrow> 0 | Some ma \<Rightarrow> hexSum ma p n)"

section \<open>Concrete inputs for the examples\<close>

text \<open>
  Stand-ins for the library in the examples: every address is valid, the builder accepts
  what it is given, the body hash is one byte, and a public key is its own hash.
\<close>

definition example_lib :: csl where
  "example_lib =
     \<lparr>bech32_valid = (\<lambda>a. True), tb_accepts = (\<lambda>p b. True), hash_transaction = (\<lambda>b. [0x01]),
      public_key_hash = (\<lambda>k. k), native_script_hash = (\<lambda>s. [])\<rparr>"

definition example_script :: native_script where
  "example_script = ScriptAll [ScriptPubkey [0x0a], ScriptPubkey [0x0b]]"

definition example_cfg :: server_config where
  "example_cfg =
     \<lparr>PAYMENT_SCRIPT = example_script, MULTISIG_ADDRESS = ''addr_multisig'',
      cfg_lib = example_lib,
      cfg_env = \<lparr>MIN_ADA_LOVELACE = None, FIXED_FEE_LOVELACE = None\<rparr>\<rparr>"

definition example_protocol :: protocol where
  "example_protocol =
     \<lparr>min_fee_a = 44, min_fee_b = 155381, pool_deposit = 500000000, key_deposit = 2000000,
      max_val_size = Some 5000, max_tx_size = Some 16384,
      coins_per_utxo_size = Some 4310, coins_per_utxo_byte = None\<rparr>"

definition example_utxo :: utxo where
  "example_utxo =
     \<lparr>tx_hash = ''1111111111111111111111111111111111111111111111111111111111111111'',
      output_index = 0, utxo_amount = [(''lovelace'', 10000000)]\<rparr>"

definition example_gateway :: gateway where
  "example_gateway =
     \<lparr>protocolParams = Some example_protocol, utxosByAddress = (\<lambda>a. Some [example_utxo]),
      submitTx = (\<lambda>c. Accepted ''txhash'')\<rparr>"

text \<open>The session that a sweep of \<open>example_utxo\<close> to \<^verbatim>\<open>addr_dest\<close> creates.\<close>

definition example_body :: tx_body where
  "example_body =
     \<lparr>inputs = [\<lparr>transaction_id = hexToBytes (tx_hash example_utxo), input_index = 0\<rparr>],
      outputs = [\<lparr>address = ''addr_dest'', amount = \<lparr>coin = 2000000, multiasset = None\<rparr>\<rparr>,
                 \<lparr>address = ''addr_dest'', amount = \<lparr>coin = 7000000, multiasset = None\<rparr>\<rparr>],
      fee = 1000000, required_signers = []\<rparr>"

definition example_preview :: preview where
  "example_preview =
     \<lparr>pv_mode = ''sendAll'', selectedInputs = [example_utxo],
      computedOutputs =
        [\<lparr>row_address = ''addr_dest'', row_lovelace = 2000000, row_assets = []\<rparr>,
         \<lparr>row_address = ''addr_dest'', row_lovelace = 7000000, row_assets = []\<rparr>],
      pv_fee = 1000000, changeCoin = 7000000, changeHasTokens = False\<rparr>"

definition example_record :: tx_record where
  "example_record =
     \<lparr>recTxHex = TransactionCbor (Transaction example_body
                   (TransactionWitnessSet_new\<lparr>native_scripts := Some [example_script]\<rparr>)),
      recTxBodyHex = BodyCbor example_body,
      scriptHex = NativeScriptCbor example_script,
      rec_m = 2,
      signersKeyHashes = [''0a'', ''0b''],
      witnesses = [],
      recPreview = example_preview\<rparr>"

definition example_state :: server_state where
  "example_state = \<lparr>txs = [(''01'', example_record)], latestSession = Some (''01'', example_preview)\<rparr>"

definition vwA :: vkeywitness where "vwA = Vkeywitness [0x0a] [0xa1]"
definition vwB :: vkeywitness where "vwB = Vkeywitness [0x0b] [0xb1]"
definition vwZ :: vkeywitness where "vwZ = Vkeywitness [0x0c] [0xc1]"

definition example_state_A :: server_state where
  "example_state_A =
     \<lparr>txs = [(''01'', example_record\<lparr>witnesses := [(''0a'', wsSingle vwA)]\<rparr>)],
      latestSession = Some (''01'', example_preview)\<rparr>"

definition example_state_AB :: server_state where
  "example_state_AB =
     \<lparr>txs = [(''01'', example_record\<lparr>witnesses := [(''0a'', wsSingle vwA), (''0b'', wsSingle vwB)]\<rparr>)],
      latestSession = Some (''01'', example_preview)\<rparr>"

definition example_policy :: string where
  "example_policy = ''aaaaaaaaaaaaaaaaaaaaaaaaaaaaaaaaaaaaaaaaaaaaaaaaaaaaaaaa''"

definition example_unit :: string where
  "example_unit = example_policy @ ''4e''"

definition example_policy_bytes :: "byte list" where
  "example_policy_bytes =
     [0xaa, 0xaa, 0xaa, 0xaa, 0xaa, 0xaa, 0xaa, 0xaa, 0xaa, 0xaa, 0xaa, 0xaa, 0xaa, 0xaa,
      0xaa, 0xaa, 0xaa, 0xaa, 0xaa, 0xaa, 0xaa, 0xaa, 0xaa, 0xaa, 0xaa, 0xaa, 0xaa, 0xaa]"

definition token_utxo :: "int \<Rightarrow> int \<Rightarrow> utxo" where
  "token_utxo c q =
     \<lparr>tx_hash = ''1111111111111111111111111111111111111111111111111111111111111111'',
      output_index = 1, utxo_amount = [(''lovelace'', c), (example_unit, q)]\<rparr>"

definition example_chain :: "utxo list \<Rightarrow> gateway" where
  "example_chain utxos =
     \<lparr>protocolParams = Some example_protocol, utxosByAddress = (\<lambda>a. Some utxos),
      submitTx = (\<lambda>c. Accepted ''txhash'')\<rparr>"

definition explicit_opts :: "utxo list \<Rightarrow> out_request list \<Rightarrow> build_opts" where
  "explicit_opts utxos os =
     \<lparr>bf = example_chain utxos, network = ''mainnet'', multisigAddress = ''addr_multisig'',
      paymentScriptHex = NativeScriptCbor example_script,
      optRequiredKeyHashes = [''0a'', ''0b''], optMRequired = 2,
      mode = ''explicit'', destAddress = None, optOutputs = Some os\<rparr>"

definition default_env :: process_env where
  "default_env = \<lparr>MIN_ADA_LOVELACE = None, FIXED_FEE_LOVELACE = None\<rparr>"

definition token_request :: "int \<Rightarrow> out_request" where
  "token_request q = \<lparr>out_address = ''addr_x'', lovelace = Some 1500000, assets = [(example_unit, q)]\<rparr>"

definition token_output :: "string \<Rightarrow> int \<Rightarrow> int \<Rightarrow> tx_output" where
  "token_output a c q =
     \<lparr>address = a, amount = \<lparr>coin = c, multiasset = Some [(example_policy_bytes, [([0x4e], q)])]\<rparr>\<rparr>"

section \<open>Facts about hex strings\<close>

lemma unat_byte_less: "unat (a::byte) < 256"
  using unsigned_less[of a, where 'a=nat] by simp

lemma less_16_cases:
  "(n::nat) < 16 \<Longrightarrow> n \<in> {0, 1, 2, 3, 4, 5, 6, 7, 8, 9, 10, 11, 12, 13, 14, 15}"
  by (simp, arith)

lemma of_char_hexDigit:
  "n < 16 \<Longrightarrow> (of_char (hexDigit n) :: nat) = (if n < 10 then 48 + n else 87 + n)"
  by (drule less_16_cases) (elim insertE emptyE; simp add: hexDigit_def)

lemma hexDigit_inj: "a < 16 \<Longrightarrow> b < 16 \<Longrightarrow> hexDigit a = hexDigit b \<Longrightarrow> a = b"
proof -
  assume a: "a < 16" and b: "b < 16" and e: "hexDigit a = hexDigit b"
  from e have "(of_char (hexDigit a) :: nat) = of_char (hexDigit b)" by simp
  with a b show "a = b" by (simp add: of_char_hexDigit split: if_splits)
qed

lemma byteToHex_inj: "byteToHex a = byteToHex b \<Longrightarrow> a = b"
proof -
  assume e: "byteToHex a = byteToHex b"
  have "unat a div 16 < 16" "unat b div 16 < 16"
    using unat_byte_less[of a] unat_byte_less[of b] by simp_all
  moreover have "unat a mod 16 < 16" "unat b mod 16 < 16" by simp_all
  ultimately have "unat a div 16 = unat b div 16" "unat a mod 16 = unat b mod 16"
    using e hexDigit_inj unfolding byteToHex_def by auto
  then have "unat a = unat b" by (metis div_mult_mod_eq)
  then show "a = b" by (simp add: word_unat_eq_iff)
qed

lemma bytesToHex_inj: "bytesToHex xs = bytesToHex ys \<Longrightarrow> xs = ys"
proof (induction xs arbitrary: ys)
  case Nil
  then show ?case by (cases ys) (simp_all add: bytesToHex_def byteToHex_def)
next
  case (Cons x xs)
  show ?case
  proof (cases ys)
    case Nil
    with Cons.prems show ?thesis by (simp add: bytesToHex_def byteToHex_def)
  next
    case (Cons y ys')
    with Cons.prems have "byteToHex x @ bytesToHex xs = byteToHex y @ bytesToHex ys'"
      by (simp add: bytesToHex_def)
    moreover have "length (byteToHex x) = length (byteToHex y)" by (simp add: byteToHex_def)
    ultimately have "byteToHex x = byteToHex y" "bytesToHex xs = bytesToHex ys'" by auto
    with Cons.IH Cons show ?thesis by (auto dest: byteToHex_inj)
  qed
qed

lemma toLowerChar_hexDigit: "n < 16 \<Longrightarrow> toLowerChar (hexDigit n) = hexDigit n"
  by (drule less_16_cases) (elim insertE emptyE; simp add: hexDigit_def toLowerChar_def)

lemma toLowerCase_bytesToHex: "toLowerCase (bytesToHex bs) = bytesToHex bs"
proof (induction bs)
  case Nil
  show ?case by (simp add: toLowerCase_def bytesToHex_def)
next
  case (Cons b bs)
  have "unat b div 16 < 16" using unat_byte_less[of b] by simp
  then have "toLowerCase (byteToHex b) = byteToHex b"
    by (simp add: toLowerCase_def byteToHex_def toLowerChar_hexDigit)
  with Cons show ?case by (simp add: toLowerCase_def bytesToHex_def)
qed

lemma toLowerCase_idem: "toLowerCase (toLowerCase s) = toLowerCase s"
proof -
  have "toLowerChar (toLowerChar c) = toLowerChar c" for c
    by (simp add: toLowerChar_def)
  then show ?thesis by (simp add: toLowerCase_def)
qed

lemma inj_bytesToHex: "inj bytesToHex"
  by (rule injI) (rule bytesToHex_inj)

section \<open>The walk of collectScriptInfo\<close>

lemma set_set_add: "set (set_add x xs) = insert x (set xs)"
  by (auto simp: set_add_def)

lemma distinct_set_add: "distinct xs \<Longrightarrow> distinct (set_add x xs)"
  by (simp add: set_add_def)

lemma collectChildren_Cons_Inr:
  "collectChildren seg (s # ss) i acc path = Inr acc'
     \<Longrightarrow> \<exists>a. collectScriptInfo s acc (path @ [seg i]) = Inr a
           \<and> collectChildren seg ss (Suc i) a path = Inr acc'"
  by (simp split: sum.split_asm)

lemma collect_thresholds:
  "collectScriptInfo ns acc path = Inr acc' \<Longrightarrow> thresholds acc' = thresholds acc @ atLeastNs ns"
  "collectChildren seg ss i acc path = Inr acc'
     \<Longrightarrow> thresholds acc' = thresholds acc @ concat (map atLeastNs ss)"
proof (induction ns acc path and seg ss i acc path arbitrary: acc' and acc'
        rule: collectScriptInfo_collectChildren.induct)
  case (8 seg s ss i acc path)
  from collectChildren_Cons_Inr[OF 8(3)] obtain a
    where a: "collectScriptInfo s acc (path @ [seg i]) = Inr a"
      and b: "collectChildren seg ss (Suc i) a path = Inr acc'"
    by blast
  show ?case using 8(1)[OF a] 8(2)[OF a b] by simp
qed (auto simp: Let_def)

lemma collect_keys:
  "collectScriptInfo ns acc path = Inr acc'
     \<Longrightarrow> set (keys acc') = set (keys acc) \<union> bytesToHex ` pubkeys ns"
  "collectChildren seg ss i acc path = Inr acc'
     \<Longrightarrow> set (keys acc') = set (keys acc) \<union> bytesToHex ` \<Union> (set (map pubkeys ss))"
proof (induction ns acc path and seg ss i acc path arbitrary: acc' and acc'
        rule: collectScriptInfo_collectChildren.induct)
  case (8 seg s ss i acc path)
  from collectChildren_Cons_Inr[OF 8(3)] obtain a
    where a: "collectScriptInfo s acc (path @ [seg i]) = Inr a"
      and b: "collectChildren seg ss (Suc i) a path = Inr acc'"
    by blast
  show ?case using 8(1)[OF a] 8(2)[OF a b] by auto
qed (auto simp: Let_def set_set_add toLowerCase_bytesToHex)

lemma collect_distinct:
  "collectScriptInfo ns acc path = Inr acc' \<Longrightarrow> distinct (keys acc) \<Longrightarrow> distinct (keys acc')"
  "collectChildren seg ss i acc path = Inr acc' \<Longrightarrow> distinct (keys acc) \<Longrightarrow> distinct (keys acc')"
proof (induction ns acc path and seg ss i acc path arbitrary: acc' and acc'
        rule: collectScriptInfo_collectChildren.induct)
  case (8 seg s ss i acc path)
  from collectChildren_Cons_Inr[OF 8(3)] obtain a
    where a: "collectScriptInfo s acc (path @ [seg i]) = Inr a"
      and b: "collectChildren seg ss (Suc i) a path = Inr acc'"
    by blast
  show ?case using 8(1)[OF a 8(4)] 8(2)[OF a b] by simp
qed (auto simp: Let_def distinct_set_add)

lemma collect_any:
  "collectScriptInfo ns acc path = Inr acc'
     \<Longrightarrow> list_ex isAnyNode (tree acc') = (list_ex isAnyNode (tree acc) \<or> hasAnyNode ns)"
  "collectChildren seg ss i acc path = Inr acc'
     \<Longrightarrow> list_ex isAnyNode (tree acc') = (list_ex isAnyNode (tree acc) \<or> list_ex hasAnyNode ss)"
proof (induction ns acc path and seg ss i acc path arbitrary: acc' and acc'
        rule: collectScriptInfo_collectChildren.induct)
  case (8 seg s ss i acc path)
  from collectChildren_Cons_Inr[OF 8(3)] obtain a
    where a: "collectScriptInfo s acc (path @ [seg i]) = Inr a"
      and b: "collectChildren seg ss (Suc i) a path = Inr acc'"
    by blast
  show ?case using 8(1)[OF a] 8(2)[OF a b] by auto
qed (auto simp: Let_def)

text \<open>The walk ends with the exception exactly on the trees that have a time-lock node.\<close>

lemma walk_exception_only: "(e :: walk_exception) = ToStrNotAFunction"
  by (cases e) simp

lemma collect_timelock:
  "collectScriptInfo ns acc path = Inl ToStrNotAFunction \<longleftrightarrow> hasTimelock ns"
  "collectChildren seg ss i acc path = Inl ToStrNotAFunction \<longleftrightarrow> list_ex hasTimelock ss"
proof (induction ns acc path and seg ss i acc path
        rule: collectScriptInfo_collectChildren.induct)
  case (8 seg s ss i acc path)
  show ?case
  proof (cases "collectScriptInfo s acc (path @ [seg i])")
    case (Inl e)
    then show ?thesis using 8(1) walk_exception_only[of e] by simp
  next
    case (Inr a)
    then show ?thesis using 8(1) 8(2)[OF Inr] by simp
  qed
qed (simp_all add: Let_def)

lemma finite_pubkeys: "finite (pubkeys ns)"
  by (induction ns) auto

lemma length_keys_card:
  assumes "collectScriptInfo ns
      \<lparr>keys = [], thresholds = [], invalidBefore = None, invalidHereafter = None, tree = []\<rparr> []
      = Inr info"
  shows "length (keys info) = card (pubkeys ns)"
proof -
  have "distinct (keys info)" by (rule collect_distinct(1)[OF assms]) simp
  then have "length (keys info) = card (set (keys info))" by (simp add: distinct_card)
  also have "\<dots> = card (bytesToHex ` pubkeys ns)" by (simp add: collect_keys(1)[OF assms])
  also have "\<dots> = card (pubkeys ns)"
    by (rule card_image) (rule inj_on_subset[OF inj_bytesToHex], simp)
  finally show ?thesis .
qed

text \<open>
  What \<open>deriveSummary\<close> returns: the exception on a tree with a time-lock node, and
  otherwise a summary whose threshold follows the three rules.
\<close>

lemma deriveSummary_timelock:
  "deriveSummary nsHash ns = Inl ToStrNotAFunction \<longleftrightarrow> hasTimelock ns"
  using collect_timelock(1)[of ns
      "\<lparr>keys = [], thresholds = [], invalidBefore = None, invalidHereafter = None, tree = []\<rparr>" "[]"]
  by (auto simp: deriveSummary_def Let_def split: sum.splits)

lemma deriveSummary_defined:
  "(\<exists>s. deriveSummary nsHash ns = Inr s) \<longleftrightarrow> \<not> hasTimelock ns"
proof (cases "deriveSummary nsHash ns")
  case (Inl e)
  then show ?thesis using deriveSummary_timelock[of nsHash ns] walk_exception_only[of e] by simp
next
  case (Inr s)
  then show ?thesis using deriveSummary_timelock[of nsHash ns] by simp
qed

lemma deriveSummary_threshold:
  assumes "deriveSummary nsHash ns = Inr s"
  shows "mRequired s =
     (if atLeastNs ns \<noteq> [] then Max (set (atLeastNs ns))
      else if hasAnyNode ns then 1
      else card (pubkeys ns))"
    and "totalKeys s = card (pubkeys ns)"
    and "set (requiredKeyHashes s) = bytesToHex ` pubkeys ns"
proof -
  obtain info where i: "collectScriptInfo ns
      \<lparr>keys = [], thresholds = [], invalidBefore = None, invalidHereafter = None, tree = []\<rparr> []
      = Inr info"
    using assms by (auto simp: deriveSummary_def split: sum.splits)
  have t: "thresholds info = atLeastNs ns" using collect_thresholds(1)[OF i] by simp
  have a: "list_ex isAnyNode (tree info) = hasAnyNode ns" using collect_any(1)[OF i] by simp
  have k: "length (keys info) = card (pubkeys ns)" by (rule length_keys_card[OF i])
  have ks: "set (keys info) = bytesToHex ` pubkeys ns" using collect_keys(1)[OF i] by simp
  show "mRequired s =
     (if atLeastNs ns \<noteq> [] then Max (set (atLeastNs ns))
      else if hasAnyNode ns then 1
      else card (pubkeys ns))"
    using assms i t a k by (auto simp: deriveSummary_def Let_def)
  show "totalKeys s = card (pubkeys ns)"
    using assms i k by (auto simp: deriveSummary_def Let_def)
  show "set (requiredKeyHashes s) = bytesToHex ` pubkeys ns"
    using assms i ks by (auto simp: deriveSummary_def Let_def)
qed

section \<open>Facts about the session store and the witness loop\<close>

lemma update_update_same: "AList.update k v (AList.update k v' al) = AList.update k v al"
  by (induct al) auto

lemma set_update_cases:
  "e \<in> set (AList.update k v al) \<Longrightarrow> e = (k, v) \<or> e \<in> set al"
  by (induct al) (auto split: if_splits)

lemma set_delete_subset: "set (AList.delete k al) \<subseteq> set al"
  by (induct al) auto

lemma set_Set_from: "set (Set_from xs) = set xs"
proof -
  have "set (fold set_add xs ys) = set xs \<union> set ys" for ys
    by (induction xs arbitrary: ys) (auto simp: set_set_add)
  then show ?thesis by (simp add: Set_from_def)
qed

lemma witnessLoop_found:
  "map_of txs' txId' = Some rec \<Longrightarrow>
   witnessLoop lib txId' R vks acc ign txs' =
     (False,
      acc @ filter (\<lambda>kh. kh \<in> set R) (map (keyHashHexOf lib) vks),
      ign @ filter (\<lambda>kh. kh \<notin> set R) (map (keyHashHexOf lib) vks),
      AList.update txId' (rec\<lparr>witnesses := storeAccepted lib R vks (witnesses rec)\<rparr>) txs')"
proof (induction vks arbitrary: acc ign txs' rec)
  case Nil
  then show ?case by (simp add: storeAccepted_def AList.update_triv)
next
  case (Cons vw vks)
  show ?case
  proof (cases "keyHashHexOf lib vw \<in> set R")
    case False
    then show ?thesis using Cons.IH[OF Cons.prems] by (simp add: storeAccepted_def)
  next
    case True
    let ?rec' = "rec\<lparr>witnesses := AList.update (keyHashHexOf lib vw) (wsSingle vw) (witnesses rec)\<rparr>"
    have m: "map_of (AList.update txId' ?rec' txs') txId' = Some ?rec'"
      by (simp add: AList.update_conv')
    show ?thesis using True Cons.prems Cons.IH[OF m]
      by (simp add: addWitness_def Let_def storeAccepted_def update_update_same)
  qed
qed

lemma keys_storeAccepted:
  "fst ` set (storeAccepted lib R vks ws) \<subseteq> fst ` set ws \<union> set R"
proof -
  have "fst ` set (fold (\<lambda>vw. AList.update (keyHashHexOf lib vw) (wsSingle vw)) xs ws)
          = fst ` set ws \<union> keyHashHexOf lib ` set xs" for xs
    by (induction xs arbitrary: ws) (auto simp: AList.dom_update)
  then show ?thesis by (auto simp: storeAccepted_def)
qed

lemma map_of_storeAccepted_other:
  assumes "k \<notin> keyHashHexOf lib ` {vw \<in> set vks. keyHashHexOf lib vw \<in> set R}"
  shows "map_of (storeAccepted lib R vks ws) k = map_of ws k"
proof -
  have *: "k \<notin> keyHashHexOf lib ` set xs \<Longrightarrow>
        map_of (fold (\<lambda>vw. AList.update (keyHashHexOf lib vw) (wsSingle vw)) xs ws) k = map_of ws k" for xs
    by (induction xs arbitrary: ws) (auto simp: AList.update_conv')
  have "k \<notin> keyHashHexOf lib ` set (filter (\<lambda>vw. keyHashHexOf lib vw \<in> set R) vks)"
    using assms by auto
  from *[OF this] show ?thesis by (simp add: storeAccepted_def)
qed

lemma map_of_storeAccepted_some:
  "vw \<in> set vks \<Longrightarrow> keyHashHexOf lib vw \<in> set R \<Longrightarrow>
   \<exists>vw' \<in> set vks. keyHashHexOf lib vw' = keyHashHexOf lib vw \<and>
      map_of (storeAccepted lib R vks ws) (keyHashHexOf lib vw) = Some (wsSingle vw')"
proof -
  have "vw \<in> set xs \<Longrightarrow>
        \<exists>vw' \<in> set xs. keyHashHexOf lib vw' = keyHashHexOf lib vw \<and>
        map_of (fold (\<lambda>vw. AList.update (keyHashHexOf lib vw) (wsSingle vw)) xs ws) (keyHashHexOf lib vw) = Some (wsSingle vw')" for xs
  proof (induction xs arbitrary: ws rule: rev_induct)
    case Nil then show ?case by simp
  next
    case (snoc x xs)
    show ?case
    proof (cases "keyHashHexOf lib x = keyHashHexOf lib vw")
      case True
      then show ?thesis by (auto simp: AList.update_conv' intro!: bexI[of _ x])
    next
      case False
      with snoc.prems have "vw \<in> set xs" by auto
      from snoc.IH[OF this, of ws] False show ?thesis by (auto simp: AList.update_conv')
    qed
  qed
  from this[of "filter (\<lambda>vw. keyHashHexOf lib vw \<in> set R) vks"]
  show "vw \<in> set vks \<Longrightarrow> keyHashHexOf lib vw \<in> set R \<Longrightarrow> ?thesis"
    by (auto simp: storeAccepted_def)
qed

lemma store_inv_update:
  "store_inv txs' \<Longrightarrow> session_inv rec \<Longrightarrow> store_inv (AList.update k rec txs')"
  unfolding store_inv_def by (auto dest!: set_update_cases)

lemma store_inv_delete: "store_inv txs' \<Longrightarrow> store_inv (AList.delete k txs')"
  unfolding store_inv_def using set_delete_subset by fastforce

lemma store_inv_lookup: "store_inv txs' \<Longrightarrow> map_of txs' k = Some rec \<Longrightarrow> session_inv rec"
  unfolding store_inv_def by (fastforce dest: map_of_SomeD)

lemma create_inv: "store_inv (txs st) \<Longrightarrow> store_inv (txs (snd (create_handler cfg gw req st)))"
  by (auto simp: create_handler_def Let_def createTxRecord_def session_inv_def
      REQUIRED_KEY_HASHES_def toLowerCase_idem
      intro!: store_inv_update split: sum.splits)

lemma witness_inv:
  assumes "store_inv (txs st)"
  shows "store_inv (txs (snd (witness_handler lib wreq st)))"
proof (cases "truthy (w_txId wreq) \<and> truthy_hex (witnessHex wreq)")
  case False
  then show ?thesis using assms by (auto simp: witness_handler_def)
next
  case True
  let ?id = "the (w_txId wreq)"
  show ?thesis
  proof (cases "map_of (txs st) ?id")
    case None
    then show ?thesis using assms True by (simp add: witness_handler_def Let_def getTxRecord_def)
  next
    case (Some rec)
    let ?R = "Set_from (map toLowerCase (signersKeyHashes rec))"
    have ri: "session_inv rec" using assms Some by (rule store_inv_lookup)
    have R: "set ?R = set (signersKeyHashes rec)"
      using ri by (simp add: set_Set_from session_inv_def del: set_map)
    have "session_inv (rec\<lparr>witnesses := storeAccepted lib ?R vks (witnesses rec)\<rparr>)" for vks
      using ri keys_storeAccepted[of lib ?R vks "witnesses rec"] R
      by (auto simp: session_inv_def)
    then have "store_inv (AList.update ?id (rec\<lparr>witnesses := storeAccepted lib ?R vks (witnesses rec)\<rparr>) (txs st))" for vks
      using assms by (intro store_inv_update)
    then show ?thesis using assms True Some
      by (auto simp: witness_handler_def Let_def getTxRecord_def witnessLoop_found[OF Some]
          split: sum.splits option.splits)
  qed
qed

lemma submit_inv: "store_inv (txs st) \<Longrightarrow> store_inv (txs (fst (snd (submit_handler gw t st))))"
  by (auto simp: submit_handler_def Let_def clearTx_def intro: store_inv_delete
      split: option.splits sum.splits gateway_reply.splits)

lemma reset_inv: "store_inv (txs st) \<Longrightarrow> store_inv (txs (snd (reset_handler t st)))"
  by (auto simp: reset_handler_def clearTx_def intro: store_inv_delete)

lemma reachable_store_inv: "reachable cfg st \<Longrightarrow> store_inv (txs st)"
proof (induction rule: reachable.induct)
  case start
  then show ?case by (simp add: store_inv_def)
next
  case (create st gw req)
  then show ?case by (simp add: create_inv)
next
  case (witness st wreq)
  then show ?case by (simp add: witness_inv)
next
  case (submit st gw txIdOpt)
  then show ?case by (simp add: submit_inv)
next
  case (reset st txIdOpt)
  then show ?case by (simp add: reset_inv)
qed

section \<open>Facts about the assembler\<close>

lemma aggVkeys_eq:
  "aggVkeys ws =
     (if list_all (\<lambda>w. TransactionWitnessSet_from_bytes w \<noteq> None) ws
      then Inr (concat (map parsedVkeys ws)) else Inl CslException)"
proof -
  let ?f = "\<lambda>agg w. case TransactionWitnessSet_from_bytes w of
                None \<Rightarrow> Inl CslException
              | Some ws \<Rightarrow> Inr (case vkeys ws of None \<Rightarrow> agg | Some vs \<Rightarrow> agg @ vs)"
  have "foldE ?f ws agg =
     (if list_all (\<lambda>w. TransactionWitnessSet_from_bytes w \<noteq> None) ws
      then Inr (agg @ concat (map parsedVkeys ws)) else Inl CslException)" for agg
    by (induction ws arbitrary: agg)
       (auto simp: parsedVkeys_def vkeysList_def split: option.splits)
  from this[of "[]"] show ?thesis by (simp add: aggVkeys_def)
qed

lemma update_fresh: "k \<notin> fst ` set al \<Longrightarrow> AList.update k v al = al @ [(k, v)]"
  by (induct al) auto

lemma fold_update_fresh:
  "distinct (map fst ins) \<Longrightarrow> fst ` set al \<inter> fst ` set ins = {} \<Longrightarrow>
   fold (\<lambda>e. AList.update (fst e) (snd e)) ins al = al @ ins"
proof (induction ins arbitrary: al)
  case Nil
  then show ?case by simp
next
  case (Cons e ins)
  have f: "fst e \<notin> fst ` set al" using Cons.prems(2) by auto
  have "fst ` set (al @ [e]) \<inter> fst ` set ins = {}" using Cons.prems by auto
  with Cons.IH[of "al @ [e]"] Cons.prems(1) f show ?case by (simp add: update_fresh)
qed

lemma insertWitnesses_found:
  "map_of txs' txId' = Some rec \<Longrightarrow>
   insertWitnesses txId' ins txs' =
     AList.update txId' (rec\<lparr>witnesses := fold (\<lambda>e. AList.update (fst e) (snd e)) ins (witnesses rec)\<rparr>) txs'"
proof (induction ins arbitrary: txs' rec)
  case Nil
  then show ?case by (simp add: insertWitnesses_def AList.update_triv)
next
  case (Cons e ins)
  let ?rec' = "rec\<lparr>witnesses := AList.update (fst e) (snd e) (witnesses rec)\<rparr>"
  have m: "map_of (AList.update txId' ?rec' txs') txId' = Some ?rec'"
    by (simp add: AList.update_conv')
  from Cons.IH[OF m] Cons.prems show ?case
    by (simp add: insertWitnesses_def addWitness_def Let_def update_update_same)
qed

lemma assemble_perm:
  assumes "mset ws1 = mset ws2"
  shows "sameUpToWitnessOrder (assembleAndSerializeTx b s ws1) (assembleAndSerializeTx b s ws2)"
proof -
  let ?P = "\<lambda>w. TransactionWitnessSet_from_bytes w \<noteq> None"
  have s: "set ws1 = set ws2" using assms by (rule mset_eq_setD)
  then have p: "list_all ?P ws1 = list_all ?P ws2" by (simp add: list_all_iff)
  have "mset (concat (map parsedVkeys ws1)) = mset (concat (map parsedVkeys ws2))"
    using assms by (metis mset_concat mset_map sum_mset_sum_list)
  then have c: "mset (concat (map parsedVkeys ws1)) = mset (concat (map parsedVkeys ws2))"
    and e: "concat (map parsedVkeys ws1) = [] \<longleftrightarrow> concat (map parsedVkeys ws2) = []"
    by (simp, metis mset_zero_iff)
  show ?thesis using p c e
    by (auto simp: assembleAndSerializeTx_def aggVkeys_eq Let_def TransactionWitnessSet_new_def
        vkeysList_def split: option.splits)
qed

section \<open>Facts about the builder\<close>

lemma bindE_Inr_iff: "bindE m' f = Inr y \<longleftrightarrow> (\<exists>x. m' = Inr x \<and> f x = Inr y)"
  by (cases m') auto

lemma bindE_Inl_iff: "bindE m' f = Inl e \<longleftrightarrow> (m' = Inl e \<or> (\<exists>x. m' = Inr x \<and> f x = Inl e))"
  by (cases m') auto

lemma bindE_split:
  "P (bindE m' f) = ((\<forall>e. m' = Inl e \<longrightarrow> P (Inl e)) \<and> (\<forall>x. m' = Inr x \<longrightarrow> P (f x)))"
  by (cases m') auto

lemma bindE_split_asm:
  "P (bindE m' f) = (\<not> ((\<exists>e. m' = Inl e \<and> \<not> P (Inl e)) \<or> (\<exists>x. m' = Inr x \<and> \<not> P (f x))))"
  by (cases m') auto

lemma BigNum_from_str_Inr: "BigNum_from_str q = Inr q' \<Longrightarrow> q' = q"
  by (auto simp: BigNum_from_str_def split: if_splits)

lemma jsAssetsToValue_Inr:
  "jsAssetsToValue v am = Inr v' \<Longrightarrow> coin v' = coin v \<and> multiasset v' \<noteq> None"
  by (auto simp: jsAssetsToValue_def bindE_Inr_iff)

lemma bumpAdaIfTokens_min:
  assumes "bumpAdaIfTokens minAda v = Inr v'" and "multiasset v \<noteq> None"
  shows "minAda \<le> coin v' \<and> multiasset v' = multiasset v"
proof -
  from assms obtain floor' where f: "BigNum_from_str minAda = Inr floor'"
    and v': "v' = (if coin v < floor' then v\<lparr>coin := floor'\<rparr> else v)"
    by (auto simp: bumpAdaIfTokens_def bindE_Inr_iff split: option.split_asm)
  from f have "floor' = minAda" by (rule BigNum_from_str_Inr)
  with v' show ?thesis by (cases "coin v < minAda") simp_all
qed

lemma mkValue_min:
  assumes "mkValue minAda c am = Inr v" and "multiasset v \<noteq> None"
  shows "minAda \<le> coin v"
proof -
  from assms(1) obtain c' v0 where
    v0: "(if \<not> jsAssetsIsEmpty am then jsAssetsToValue \<lparr>coin = c', multiasset = None\<rparr> am
          else Inr \<lparr>coin = c', multiasset = None\<rparr>) = Inr v0"
    and r: "(if multiasset v0 \<noteq> None then bumpAdaIfTokens minAda v0 else Inr v0) = Inr v"
    by (auto simp: mkValue_def bindE_Inr_iff)
  show ?thesis
  proof (cases "multiasset v0 = None")
    case True
    with r assms(2) show ?thesis by simp
  next
    case False
    with r have "bumpAdaIfTokens minAda v0 = Inr v" by simp
    from bumpAdaIfTokens_min[OF this False] show ?thesis by simp
  qed
qed

lemma specToOutput_min:
  "specToOutput lib minAda spec = Inr o' \<Longrightarrow> multiasset (amount o') \<noteq> None \<Longrightarrow>
     minAda \<le> coin (amount o')"
  by (auto simp: specToOutput_def bindE_Inr_iff split: if_splits dest: mkValue_min)

lemma changeOutputs_min:
  "changeOutputs lib minAda opts cc ca = Inr os \<Longrightarrow> o' \<in> set os \<Longrightarrow>
     multiasset (amount o') \<noteq> None \<Longrightarrow> minAda \<le> coin (amount o')"
  by (auto simp: changeOutputs_def bindE_Inr_iff split: if_splits dest: mkValue_min)

lemma outputs_fold_min:
  "foldE (\<lambda>outs spec. bindE (specToOutput lib minAda spec) (\<lambda>o'. Inr (outs @ [o']))) specs acc = Inr res \<Longrightarrow>
   \<forall>o' \<in> set acc. multiasset (amount o') \<noteq> None \<longrightarrow> minAda \<le> coin (amount o') \<Longrightarrow>
   \<forall>o' \<in> set res. multiasset (amount o') \<noteq> None \<longrightarrow> minAda \<le> coin (amount o')"
proof (induction specs arbitrary: acc)
  case Nil
  then show ?case by simp
next
  case (Cons spec specs)
  from Cons.prems(1) obtain o1 where o1: "specToOutput lib minAda spec = Inr o1"
    and r: "foldE (\<lambda>outs spec. bindE (specToOutput lib minAda spec) (\<lambda>o'. Inr (outs @ [o']))) specs (acc @ [o1]) = Inr res"
    by (auto simp: bindE_Inr_iff)
  have "\<forall>o' \<in> set (acc @ [o1]). multiasset (amount o') \<noteq> None \<longrightarrow> minAda \<le> coin (amount o')"
    using Cons.prems(2) specToOutput_min[OF o1] by auto
  from Cons.IH[OF r this] show ?case .
qed

lemma build_outputs:
  assumes "buildUnsignedTx lib pe opts = Inr art" and "txBodyHex art = BodyCbor b"
  shows "\<exists>utxos totalValue plan changeAssets outs change.
      utxosByAddress (bf opts) (multisigAddress opts) = Some utxos
    \<and> sumUtxos utxos = Inr totalValue
    \<and> planOutputs pe opts (valueToJs totalValue) = Inr plan
    \<and> fst (snd plan) + FIXED_FEE pe \<le> fst (valueToJs totalValue)
    \<and> jsAssetsSub (snd (valueToJs totalValue)) (snd (snd plan)) = Inr changeAssets
    \<and> foldE (\<lambda>outs spec. bindE (specToOutput lib (MIN_ADA pe) spec) (\<lambda>o'. Inr (outs @ [o'])))
          (fst plan) [] = Inr outs
    \<and> changeOutputs lib (MIN_ADA pe) opts (fst (valueToJs totalValue) - fst (snd plan) - FIXED_FEE pe) changeAssets = Inr change
    \<and> outputs b = outs @ change \<and> fee b = FIXED_FEE pe"
  using assms
  by (auto simp: buildUnsignedTx_def Let_def
      split: bindE_split_asm option.split_asm if_split_asm dest!: BigNum_from_str_Inr)

lemma nameQty_Nil [simp]: "nameQty [] n = 0"
  by (simp add: nameQty_def)

lemma nameQty_jsNameAdd:
  "nameQty (jsNameAdd e d) n = nameQty d n + (if fst e = n then snd e else 0)"
  by (auto simp: nameQty_def jsNameAdd_def AList.update_conv' split: option.splits)

lemma nameQty_fold_jsNameAdd:
  "nameQty (fold jsNameAdd es d) n = nameQty d n + sum_list (map snd (filter (\<lambda>e. fst e = n) es))"
  by (induction es arbitrary: d) (auto simp: nameQty_jsNameAdd)

lemma distinct_jsNameAdd: "distinct (map fst d) \<Longrightarrow> distinct (map fst (jsNameAdd e d))"
  by (simp add: jsNameAdd_def AList.distinct_update)

lemma jsNameAdd_nonempty: "jsNameAdd e d \<noteq> []"
  by (simp add: jsNameAdd_def)

lemma assetQty_jsAssetsAdd:
  "assetQty (jsAssetsAdd dst add) p n = assetQty dst p n + entrySum add p n"
proof -
  let ?step = "\<lambda>e dst'.
             let d = (case map_of dst' (fst e) of None \<Rightarrow> [] | Some d' \<Rightarrow> d')
             in AList.update (fst e) (fold jsNameAdd (snd e) d) dst'"
  have "assetQty (fold ?step add dst) p n = assetQty dst p n + entrySum add p n"
  proof (induction add arbitrary: dst)
    case Nil
    show ?case by (simp add: entrySum_def)
  next
    case (Cons e add)
    have "assetQty (?step e dst) p n
        = assetQty dst p n + (if fst e = p then sum_list (map snd (filter (\<lambda>a. fst a = n) (snd e))) else 0)"
      by (auto simp: assetQty_def Let_def AList.update_conv' nameQty_fold_jsNameAdd split: option.splits)
    with Cons.IH[of "?step e dst"] show ?case
      by (simp add: entrySum_def)
  qed
  then show ?thesis by (simp add: jsAssetsAdd_def)
qed

lemma sum_filter_distinct_names:
  "distinct (map fst d) \<Longrightarrow> sum_list (map snd (filter (\<lambda>a. fst a = n) d)) = nameQty d n"
proof (induction d)
  case Nil
  show ?case by simp
next
  case (Cons a d)
  show ?case
  proof (cases "fst a = n")
    case True
    with Cons.prems have "n \<notin> fst ` set d" by auto
    then have "filter (\<lambda>a. fst a = n) d = []" by (auto simp: filter_empty_conv)
    with True show ?thesis by (cases a) (simp add: nameQty_def)
  next
    case False
    with Cons show ?thesis by (cases a) (simp add: nameQty_def)
  qed
qed

lemma entrySum_wf: "wf_assets add \<Longrightarrow> entrySum add p n = assetQty add p n"
proof (induction add)
  case Nil
  show ?case by (simp add: entrySum_def assetQty_def)
next
  case (Cons e add)
  have wf: "wf_assets add" using Cons.prems by (simp add: wf_assets_def)
  have de: "distinct (map fst (snd e))" using Cons.prems by (simp add: wf_assets_def)
  show ?case
  proof (cases "fst e = p")
    case True
    with Cons.prems have "p \<notin> fst ` set add" by (auto simp: wf_assets_def)
    then have "filter (\<lambda>e. fst e = p) add = []" by (auto simp: filter_empty_conv)
    with True de show ?thesis
      by (cases e) (simp add: entrySum_def assetQty_def sum_filter_distinct_names)
  next
    case False
    with Cons.IH[OF wf] show ?thesis
      by (cases e) (simp add: entrySum_def assetQty_def)
  qed
qed

lemma fromSpec_fold:
  defines "step \<equiv> (\<lambda>a m'.
             let unit = toLowerCase (fst a);
                 pid = take 56 unit;
                 nm = drop 56 unit;
                 d = (case map_of m' pid of None \<Rightarrow> [] | Some d' \<Rightarrow> d')
             in AList.update pid (jsNameAdd (nm, snd a) d) m')"
  shows "assetQty (fold step as m0) p n
           = assetQty m0 p n + sum_list (map snd (filter (\<lambda>a. unitKey (fst a) = (p, n)) as))"
    and "wf_assets m0 \<Longrightarrow> wf_assets (fold step as m0)"
    and "as \<noteq> [] \<Longrightarrow> fold step as m0 \<noteq> []"
proof -
  have q: "assetQty (step a m1) p n = assetQty m1 p n + (if unitKey (fst a) = (p, n) then snd a else 0)" for a m1
    by (auto simp: step_def assetQty_def Let_def AList.update_conv' nameQty_jsNameAdd unitKey_def
        split: option.splits)
  show "assetQty (fold step as m0) p n
           = assetQty m0 p n + sum_list (map snd (filter (\<lambda>a. unitKey (fst a) = (p, n)) as))"
    by (induction as arbitrary: m0) (simp_all add: q)
  have w: "wf_assets (step a m1)" if "wf_assets m1" for a m1
  proof -
    let ?pid = "take 56 (toLowerCase (fst a))"
    let ?d = "case map_of m1 ?pid of None \<Rightarrow> [] | Some d' \<Rightarrow> d'"
    have "distinct (map fst ?d)"
      using that by (auto simp: wf_assets_def split: option.splits dest!: map_of_SomeD)
    then have "distinct (map fst (jsNameAdd (drop 56 (toLowerCase (fst a)), snd a) ?d))"
      by (rule distinct_jsNameAdd)
    then show ?thesis using that
      by (auto simp: wf_assets_def step_def Let_def AList.distinct_update jsNameAdd_nonempty
          dest!: set_update_cases)
  qed
  show "wf_assets m0 \<Longrightarrow> wf_assets (fold step as m0)"
    by (induction as arbitrary: m0) (simp_all add: w)
  have ne: "step a m1 \<noteq> []" for a m1 by (simp add: step_def Let_def)
  have gen: "fold step xs m1 \<noteq> []" if "m1 \<noteq> []" for m1 xs
    using that
  proof (induction xs arbitrary: m1)
    case Nil then show ?case by simp
  next
    case (Cons a xs)
    show ?case using Cons.IH[OF ne[of a m1]] by simp
  qed
  show "as \<noteq> [] \<Longrightarrow> fold step as m0 \<noteq> []"
    by (cases as) (simp_all add: gen[OF ne])
qed

lemma wf_assets_Nil [simp]: "wf_assets []"
  by (simp add: wf_assets_def)

lemma assetQty_Nil [simp]: "assetQty [] p n = 0"
  by (simp add: assetQty_def)

lemma assetQty_fromSpec:
  "assetQty (jsAssetsFromOutputSpec as) p n = sum_list (map snd (filter (\<lambda>a. unitKey (fst a) = (p, n)) as))"
  unfolding jsAssetsFromOutputSpec_def using fromSpec_fold(1)[of as "[]" p n] by simp

lemma wf_fromSpec: "wf_assets (jsAssetsFromOutputSpec as)"
  unfolding jsAssetsFromOutputSpec_def using fromSpec_fold(2)[of "[]" as] by simp

lemma jsAssetsIsEmpty_wf: "wf_assets m' \<Longrightarrow> jsAssetsIsEmpty m' \<longleftrightarrow> m' = []"
  by (cases m') (auto simp: jsAssetsIsEmpty_def wf_assets_def)

lemma jsAssetsIsEmpty_fromSpec: "jsAssetsIsEmpty (jsAssetsFromOutputSpec as) \<longleftrightarrow> as = []"
proof (cases as)
  case Nil
  then show ?thesis by (simp add: jsAssetsFromOutputSpec_def jsAssetsIsEmpty_def)
next
  case (Cons a as')
  then have "jsAssetsFromOutputSpec as \<noteq> []"
    unfolding jsAssetsFromOutputSpec_def using fromSpec_fold(3)[of as "[]"] by simp
  with Cons show ?thesis by (simp add: jsAssetsIsEmpty_wf[OF wf_fromSpec])
qed

lemma explicit_fold:
  "fst (snd (fold (explicitStep minAda) os acc)) = fst (snd acc) + requestedCoin minAda os"
  "assetQty (snd (snd (fold (explicitStep minAda) os acc))) p n
     = assetQty (snd (snd acc)) p n + demanded os p n"
proof -
  show "fst (snd (fold (explicitStep minAda) os acc)) = fst (snd acc) + requestedCoin minAda os"
    by (induction os arbitrary: acc)
       (auto simp: explicitStep_def requestedCoin_def Let_def jsAssetsIsEmpty_fromSpec max_def)
  show "assetQty (snd (snd (fold (explicitStep minAda) os acc))) p n
     = assetQty (snd (snd acc)) p n + demanded os p n"
    by (induction os arbitrary: acc)
       (auto simp: explicitStep_def demanded_def Let_def assetQty_jsAssetsAdd
         entrySum_wf[OF wf_fromSpec] assetQty_fromSpec)
qed

lemma foldE_Inl_mem:
  assumes "x \<in> set xs" and "\<And>s. f s x = Inl E" and "\<And>s y e. f s y = Inl e \<Longrightarrow> e = E"
  shows "foldE f xs s = Inl E"
  using assms(1)
proof (induction xs arbitrary: s)
  case Nil
  then show ?case by simp
next
  case (Cons y ys)
  show ?case
  proof (cases "f s y")
    case (Inl e)
    with assms(3) show ?thesis by auto
  next
    case (Inr s')
    with assms(2)[of s] have "x \<noteq> y" by auto
    with Cons.prems have "x \<in> set ys" by simp
    from Cons.IH[OF this] Inr show ?thesis by simp
  qed
qed

lemma foldE_Inl_only:
  assumes "\<And>s y e. f s y = Inl e \<Longrightarrow> e = E" and "foldE f xs s = Inl e"
  shows "e = E"
  using assms(2)
proof (induction xs arbitrary: s)
  case Nil
  then show ?case by simp
next
  case (Cons y ys)
  then show ?case using assms(1) by (cases "f s y") auto
qed

lemma jsSubName_Inl: "jsSubName innerB r e = Inl err \<Longrightarrow> err = InsufficientTokens"
  by (auto simp: jsSubName_def Let_def split: if_splits)

lemma jsAssetsSub_insufficient:
  assumes "(p, inner) \<in> set a" and "(n, qa) \<in> set inner" and "qa < assetQty b p n"
  shows "jsAssetsSub a b = Inl InsufficientTokens"
proof -
  let ?f = "\<lambda>out e.
              let innerB = (case map_of b (fst e) of None \<Rightarrow> [] | Some i \<Rightarrow> i)
              in bindE (foldE (jsSubName innerB) (snd e) None) (\<lambda>resInner.
                   case resInner of
                     None \<Rightarrow> Inr out
                   | Some r \<Rightarrow> Inr (AList.update (fst e) r out))"
  let ?innerB = "case map_of b p of None \<Rightarrow> [] | Some i \<Rightarrow> i"
  have q: "qa < nameQty ?innerB n"
    using assms(3) by (simp add: assetQty_def split: option.splits)
  have "jsSubName ?innerB r (n, qa) = Inl InsufficientTokens" for r
    using q by (simp add: jsSubName_def Let_def nameQty_def)
  then have inner: "foldE (jsSubName ?innerB) inner None = Inl InsufficientTokens"
    using assms(2) jsSubName_Inl by (intro foldE_Inl_mem[where x = "(n, qa)"]) auto
  have bad: "?f out (p, inner) = Inl InsufficientTokens" for out
    using inner by (simp add: Let_def)
  have only: "e = InsufficientTokens" if "?f out y = Inl e" for out y e
  proof -
    from that have "foldE (jsSubName (case map_of b (fst y) of None \<Rightarrow> [] | Some i \<Rightarrow> i)) (snd y) None = Inl e"
      by (auto simp: Let_def bindE_Inl_iff split: option.splits)
    then show ?thesis using jsSubName_Inl by (rule foldE_Inl_only[rotated]) 
  qed
  have "foldE ?f a [] = Inl InsufficientTokens"
    using assms(1) bad only by (intro foldE_Inl_mem[where x = "(p, inner)"]) auto
  then show ?thesis by (simp add: jsAssetsSub_def)
qed

lemma keySum_Nil [simp]: "keySum P g [] = 0"
  by (simp add: keySum_def)

lemma keySum_Cons [simp]:
  "keySum P g (e # m') = (if P (fst e) then g (snd e) else 0) + keySum P g m'"
  by (simp add: keySum_def)

lemma keySum_update:
  "keySum P g (AList.update k v m') =
     keySum P g m' - (case map_of m' k of None \<Rightarrow> 0 | Some old \<Rightarrow> if P k then g old else 0)
       + (if P k then g v else 0)"
  by (induction m') auto

lemma hexSum_Nil [simp]: "hexSum [] p n = 0"
  by (simp add: hexSum_def)

lemma checked_add_Inr: "checked_add a b = Inr c \<Longrightarrow> c = a + b"
  by (auto simp: checked_add_def split: if_splits)

lemma addAssetStep_hexSum:
  assumes "addAssetStep ma a = Inr ma'"
  shows "hexSum ma' p n = hexSum ma p n + (if inputUnitKey (fst a) = (p, n) then snd a else 0)"
proof -
  let ?pid = "hexToBytes (take 56 (toLowerCase (fst a)))"
  let ?nm = "hexToBytes (drop 56 (toLowerCase (fst a)))"
  let ?inner = "case map_of ma ?pid of None \<Rightarrow> [] | Some i \<Rightarrow> i"
  from assms obtain q where
    q: "(case map_of ?inner ?nm of None \<Rightarrow> Inr (snd a) | Some prev \<Rightarrow> checked_add prev (snd a)) = Inr q"
    and ma': "ma' = AList.update ?pid (AList.update ?nm q ?inner) ma"
    by (auto simp: addAssetStep_def Let_def bindE_Inr_iff ScriptHash_from_bytes_def
        AssetName_new_def split: if_splits dest!: BigNum_from_str_Inr)
  have qv: "q = (case map_of ?inner ?nm of None \<Rightarrow> 0 | Some prev \<Rightarrow> prev) + snd a"
    using q by (auto split: option.splits dest: checked_add_Inr)
  show ?thesis
    unfolding ma' hexSum_def inputUnitKey_def
    by (auto simp: keySum_update qv split: option.splits)
qed

lemma foldE_addAssetStep_hexSum:
  "foldE addAssetStep as ma = Inr ma' \<Longrightarrow> hexSum ma' p n = hexSum ma p n + wireSum as p n"
proof (induction as arbitrary: ma)
  case Nil
  then show ?case by (simp add: wireSum_def)
next
  case (Cons a as)
  from Cons.prems obtain ma1 where s: "addAssetStep ma a = Inr ma1"
    and r: "foldE addAssetStep as ma1 = Inr ma'"
    by (auto simp: bindE_Inr_iff)
  from Cons.IH[OF r] addAssetStep_hexSum[OF s, of p n] show ?case
    by (simp add: wireSum_def)
qed

lemma addAssetsToValue_sum:
  "addAssetsToValue v as = Inr v' \<Longrightarrow>
     valueSum v' p n = valueSum v p n + wireSum as p n \<and> coin v' = coin v"
  by (auto simp: addAssetsToValue_def valueSum_def bindE_Inr_iff wireSum_def
      split: if_splits option.splits dest!: foldE_addAssetStep_hexSum[where p = p and n = n])

lemma utxoValue_sum:
  assumes "utxoValue u = Inr v"
  shows "valueSum v p n = wireSum (filter (\<lambda>a. fst a \<noteq> ''lovelace'') (utxo_amount u)) p n"
    and "coin v = (case find (\<lambda>a. fst a = ''lovelace'') (utxo_amount u) of None \<Rightarrow> 0 | Some l \<Rightarrow> snd l)"
  using assms
  by (auto simp: utxoValue_def bindE_Inr_iff valueSum_def split: option.splits
      dest!: addAssetsToValue_sum[where p = p and n = n] BigNum_from_str_Inr)

lemma mergeName_sum:
  "mergeName d e = Inr d' \<Longrightarrow>
     keySum P (\<lambda>q. q) d' = keySum P (\<lambda>q. q) d + (if P (fst e) then snd e else 0)"
  by (auto simp: mergeName_def bindE_Inr_iff keySum_update split: option.splits
      dest!: checked_add_Inr)

lemma foldE_mergeName_sum:
  "foldE mergeName es d = Inr d' \<Longrightarrow>
     keySum P (\<lambda>q. q) d' = keySum P (\<lambda>q. q) d + keySum P (\<lambda>q. q) es"
proof (induction es arbitrary: d)
  case Nil
  then show ?case by simp
next
  case (Cons e es)
  from Cons.prems obtain d1 where s: "mergeName d e = Inr d1"
    and r: "foldE mergeName es d1 = Inr d'"
    by (auto simp: bindE_Inr_iff)
  from Cons.IH[OF r] mergeName_sum[OF s, of P] show ?case by simp
qed

lemma mergePolicy_sum:
  assumes "mergePolicy merged e = Inr merged'"
  shows "hexSum merged' p n = hexSum merged p n + hexSum [e] p n"
proof -
  let ?d = "case map_of merged (fst e) of None \<Rightarrow> [] | Some d \<Rightarrow> d"
  from assms obtain d' where f: "foldE mergeName (snd e) ?d = Inr d'"
    and m: "merged' = AList.update (fst e) d' merged"
    by (auto simp: mergePolicy_def bindE_Inr_iff)
  show ?thesis
    unfolding m hexSum_def
    using foldE_mergeName_sum[OF f, of "\<lambda>nm. bytesToHex nm = n"]
    by (auto simp: keySum_update split: option.splits)
qed

lemma foldE_mergePolicy_sum:
  "foldE mergePolicy mb ma = Inr merged \<Longrightarrow> hexSum merged p n = hexSum ma p n + hexSum mb p n"
proof (induction mb arbitrary: ma)
  case Nil
  then show ?case by simp
next
  case (Cons e mb)
  from Cons.prems obtain m1 where s: "mergePolicy ma e = Inr m1"
    and r: "foldE mergePolicy mb m1 = Inr merged"
    by (auto simp: bindE_Inr_iff)
  from Cons.IH[OF r] mergePolicy_sum[OF s, of p n] show ?case
    by (simp add: hexSum_def)
qed

lemma mergeValue_sum:
  "mergeValue a b = Inr c \<Longrightarrow>
     valueSum c p n = valueSum a p n + valueSum b p n \<and> coin c = coin a + coin b"
  by (auto simp: mergeValue_def bindE_Inr_iff valueSum_def split: option.splits
      dest!: checked_add_Inr foldE_mergePolicy_sum[where p = p and n = n])

lemma sumUtxos_fold:
  "foldE (\<lambda>totalValue u. bindE (utxoValue u) (\<lambda>v. mergeValue totalValue v)) utxos t0 = Inr t \<Longrightarrow>
     valueSum t p n = valueSum t0 p n + carried utxos p n \<and> coin t = coin t0 + inputCoin utxos"
proof (induction utxos arbitrary: t0)
  case Nil
  then show ?case by (simp add: carried_def inputCoin_def)
next
  case (Cons u utxos)
  from Cons.prems obtain v t1 where v: "utxoValue u = Inr v" and m: "mergeValue t0 v = Inr t1"
    and r: "foldE (\<lambda>totalValue u. bindE (utxoValue u) (\<lambda>v. mergeValue totalValue v)) utxos t1 = Inr t"
    by (auto simp: bindE_Inr_iff)
  from Cons.IH[OF r] mergeValue_sum[OF m, of p n] utxoValue_sum(1)[OF v, of p n]
    utxoValue_sum(2)[OF v]
  show ?case by (simp add: carried_def inputCoin_def)
qed

lemma sumUtxos_sum:
  "sumUtxos utxos = Inr totalValue \<Longrightarrow>
     valueSum totalValue p n = carried utxos p n \<and> coin totalValue = inputCoin utxos"
  unfolding sumUtxos_def by (drule sumUtxos_fold[where p = p and n = n]) (simp add: valueSum_def)

lemma valueToJs_assetQty:
  "assetQty (snd (valueToJs v)) p n = valueSum v p n"
proof (cases "multiasset v")
  case None
  then show ?thesis by (simp add: valueToJs_def valueSum_def)
next
  case (Some ma)
  let ?step = "\<lambda>e out.
                  let pidHex = bytesToHex (fst e);
                      m0 = (case map_of out pidHex of None \<Rightarrow> [] | Some m' \<Rightarrow> m')
                  in AList.update pidHex
                       (fold (\<lambda>a. jsNameAdd (bytesToHex (fst a), snd a)) (snd e) m0) out"
  have inner: "nameQty (fold (\<lambda>a. jsNameAdd (bytesToHex (fst a), snd a)) es d) n
      = nameQty d n + keySum (\<lambda>nm. bytesToHex nm = n) (\<lambda>q. q) es" for es d
    by (induction es arbitrary: d) (auto simp: nameQty_jsNameAdd)
  have "assetQty (fold ?step ma out) p n = assetQty out p n + hexSum ma p n" for out
  proof (induction ma arbitrary: out)
    case Nil
    show ?case by simp
  next
    case (Cons e ma)
    have "assetQty (?step e out) p n = assetQty out p n + hexSum [e] p n"
      by (auto simp: assetQty_def Let_def AList.update_conv' inner hexSum_def split: option.splits)
    with Cons.IH[of "?step e out"] show ?case by (simp add: hexSum_def)
  qed
  from this[of "[]"] Some show ?thesis by (simp add: valueToJs_def valueSum_def)
qed

lemma sumUtxos_assetQty:
  "sumUtxos utxos = Inr totalValue \<Longrightarrow> assetQty (snd (valueToJs totalValue)) p n = carried utxos p n"
  by (simp add: valueToJs_assetQty sumUtxos_sum)

lemma assetQty_pos_entry:
  "0 < assetQty m' p n \<Longrightarrow> \<exists>inner. map_of m' p = Some inner \<and> map_of inner n = Some (assetQty m' p n)"
  by (auto simp: assetQty_def nameQty_def split: option.splits)

section \<open>Script summary: the derived threshold\<close>



text \<open>
  Claim C9, as the specification states it: the derived threshold lies between 1 and the
  number of distinct pubkey key hashes. The summarizer does not clamp the threshold: for
  the script AtLeast(2, [Pubkey 0a]) it returns a summary with \<open>mRequired = 2\<close> and one
  key, and for All([]) one with \<open>mRequired = 0\<close>.
\<close>

theorem deriveSummary_bounds_counterexample:
  "deriveSummary (native_script_hash example_lib) (ScriptNOfK 2 [ScriptPubkey [0x0a]])
     = Inr \<lparr>mRequired = 2, totalKeys = 1, requiredKeyHashes = [''0a''],
            hasTimeConstraints = False, sumInvalidBefore = None, sumInvalidHereafter = None,
            scriptHash = [],
            structureTrace = [NodeAtLeast 2 1 [], NodePubkey ''0a'' [InAtLeast 2 0]]\<rparr>
   \<and> card (pubkeys (ScriptNOfK 2 [ScriptPubkey [0x0a]])) = 1
   \<and> deriveSummary (native_script_hash example_lib) (ScriptAll [])
     = Inr \<lparr>mRequired = 0, totalKeys = 0, requiredKeyHashes = [],
            hasTimeConstraints = False, sumInvalidBefore = None, sumInvalidHereafter = None,
            scriptHash = [], structureTrace = [NodeAll []]\<rparr>
   \<and> card (pubkeys (ScriptAll [])) = 0"
proof -
  have h: "bytesToHex [0x0a] = ''0a''"
    by (simp add: bytesToHex_def byteToHex_def hexDigit_def)
  have l: "toLowerCase ''0a'' = ''0a''"
    by (simp add: toLowerCase_def toLowerChar_def)
  have e: "bytesToHex [] = []" by (simp add: bytesToHex_def)
  have n: "native_script_hash example_lib = (\<lambda>s. [])" by (simp add: example_lib_def)
  have a: "deriveSummary (native_script_hash example_lib) (ScriptNOfK 2 [ScriptPubkey [0x0a]])
     = Inr \<lparr>mRequired = 2, totalKeys = 1, requiredKeyHashes = [''0a''],
            hasTimeConstraints = False, sumInvalidBefore = None, sumInvalidHereafter = None,
            scriptHash = [],
            structureTrace = [NodeAtLeast 2 1 [], NodePubkey ''0a'' [InAtLeast 2 0]]\<rparr>"
    unfolding n by (simp add: deriveSummary_def Let_def set_add_def h l e)
  have b: "card (pubkeys (ScriptNOfK 2 [ScriptPubkey [0x0a]])) = 1" by simp
  have c: "deriveSummary (native_script_hash example_lib) (ScriptAll [])
     = Inr \<lparr>mRequired = 0, totalKeys = 0, requiredKeyHashes = [],
            hasTimeConstraints = False, sumInvalidBefore = None, sumInvalidHereafter = None,
            scriptHash = [], structureTrace = [NodeAll []]\<rparr>"
    unfolding n by (simp add: deriveSummary_def Let_def e)
  have d: "card (pubkeys (ScriptAll [])) = 0" by simp
  show ?thesis using a b c d by blast
qed

text \<open>
  Claim C9, amended. For every summary that \<open>deriveSummary\<close> returns (it returns one
  exactly for the trees without a time-lock node), the derived threshold lies between 1 and the
  number of distinct pubkey key hashes exactly when the tree has at least one pubkey key
  hash and, if it has AtLeast nodes, the largest \<open>n\<close> among them lies between 1 and that
  number.
\<close>

theorem deriveSummary_bounds:
  "((\<exists>s. deriveSummary nsHash ns = Inr s) \<longleftrightarrow> \<not> hasTimelock ns)
   \<and> (\<forall>s. deriveSummary nsHash ns = Inr s \<longrightarrow>
         ((1 \<le> mRequired s \<and> mRequired s \<le> card (pubkeys ns))
          \<longleftrightarrow>
          (1 \<le> card (pubkeys ns)
           \<and> (atLeastNs ns \<noteq> [] \<longrightarrow>
                 1 \<le> Max (set (atLeastNs ns)) \<and> Max (set (atLeastNs ns)) \<le> card (pubkeys ns)))))"
proof (intro conjI allI impI)
  show "(\<exists>s. deriveSummary nsHash ns = Inr s) \<longleftrightarrow> \<not> hasTimelock ns"
    by (rule deriveSummary_defined)
next
  fix s
  assume d: "deriveSummary nsHash ns = Inr s"
  show "(1 \<le> mRequired s \<and> mRequired s \<le> card (pubkeys ns))
          \<longleftrightarrow>
          (1 \<le> card (pubkeys ns)
           \<and> (atLeastNs ns \<noteq> [] \<longrightarrow>
                 1 \<le> Max (set (atLeastNs ns)) \<and> Max (set (atLeastNs ns)) \<le> card (pubkeys ns)))"
  proof (cases "atLeastNs ns = []")
    case True
    then show ?thesis using deriveSummary_threshold(1)[OF d] by auto
  next
    case False
    then have m: "mRequired s = Max (set (atLeastNs ns))"
      using deriveSummary_threshold(1)[OF d] by simp
    show ?thesis unfolding m using False le_trans by blast
  qed
qed

theorem deriveSummary_bounds_witness:
  "\<not> hasTimelock (ScriptNOfK 2 [ScriptPubkey [0x0a], ScriptPubkey [0x0b], ScriptPubkey [0x0c]])
   \<and> (\<exists>s. deriveSummary (\<lambda>s. [])
             (ScriptNOfK 2 [ScriptPubkey [0x0a], ScriptPubkey [0x0b], ScriptPubkey [0x0c]]) = Inr s
          \<and> 1 \<le> mRequired s \<and> mRequired s \<le> 3)"
proof -
  let ?t = "ScriptNOfK 2 [ScriptPubkey [0x0a], ScriptPubkey [0x0b], ScriptPubkey [0x0c]]"
  have n: "\<not> hasTimelock ?t" by simp
  have c: "card (pubkeys ?t) = 3" by simp
  have r: "1 \<le> card (pubkeys ?t)
           \<and> (atLeastNs ?t \<noteq> [] \<longrightarrow>
                 1 \<le> Max (set (atLeastNs ?t)) \<and> Max (set (atLeastNs ?t)) \<le> card (pubkeys ?t))"
    unfolding c by simp
  show ?thesis
    using deriveSummary_bounds[where ns = ?t and nsHash = "\<lambda>s. []"] n r unfolding c by blast
qed

section \<open>The examples, evaluated\<close>

lemma example_bytesToHex:
  "bytesToHex [0x0a] = ''0a''" "bytesToHex [0x0b] = ''0b''" "bytesToHex [0x0c] = ''0c''"
  "bytesToHex [0x01] = ''01''"
  by (simp_all add: bytesToHex_def byteToHex_def hexDigit_def)

lemma example_toLowerCase:
  "toLowerCase ''0a'' = ''0a''" "toLowerCase ''0b'' = ''0b''" "toLowerCase ''0c'' = ''0c''"
  by (simp_all add: toLowerCase_def toLowerChar_def)

lemma example_keyHashes:
  "keyHashHexOf example_lib vwA = ''0a''" "keyHashHexOf example_lib vwB = ''0b''"
  "keyHashHexOf example_lib vwZ = ''0c''"
  by (simp_all add: keyHashHexOf_def example_lib_def vwA_def vwB_def vwZ_def
      example_bytesToHex example_toLowerCase)

lemma example_requiredSet:
  "Set_from (map toLowerCase (signersKeyHashes example_record)) = [''0a'', ''0b'']"
  by (simp add: example_record_def Set_from_def set_add_def example_toLowerCase)

lemma example_summary:
  "M_REQUIRED example_cfg = 2" "REQUIRED_KEY_HASHES example_cfg = [''0a'', ''0b'']"
  "\<not> isl (PAYMENT_SUMMARY example_cfg)"
  by (simp_all add: M_REQUIRED_def REQUIRED_KEY_HASHES_def PAYMENT_SUMMARY_def deriveSummary_def
      Let_def example_cfg_def example_script_def set_add_def example_bytesToHex
      example_toLowerCase)

lemma example_startup_ok: "startup_ok example_cfg"
  by (simp add: startup_ok_def example_summary)

lemma example_tx_hash_length: "length (hexToBytes (tx_hash example_utxo)) = 32"
  by (simp add: example_utxo_def hexVal_def)

lemma example_utxo_index: "output_index example_utxo = 0"
  by (simp add: example_utxo_def)

lemma example_sumUtxos: "sumUtxos [example_utxo] = Inr \<lparr>coin = 10000000, multiasset = None\<rparr>"
  by (simp add: sumUtxos_def utxoValue_def example_tx_hash_length TransactionHash_from_bytes_def)
     (simp add: example_utxo_def BigNum_from_str_def addAssetsToValue_def mergeValue_def
       checked_add_def)

lemma example_create:
  "create_handler example_cfg example_gateway
     \<lparr>c_mode = None, c_destAddress = Some ''addr_dest'', c_outputs = None\<rparr>
     \<lparr>txs = [], latestSession = None\<rparr>
   = (Created ''01'' example_preview 2 [''0a'', ''0b''] ''addr_multisig'', example_state)"
  by (simp add: create_handler_def example_summary Let_def)
     (simp add: example_cfg_def buildUnsignedTx_def example_gateway_def example_lib_def
       example_sumUtxos valueToJs_def planOutputs_def MIN_ADA_def FIXED_FEE_def
       jsAssetsAdd_def jsAssetsSub_def jsAssetsIsEmpty_def specToOutput_def mkValue_def
       BigNum_from_str_def changeOutputs_def requiredSigners_def Let_def
       TransactionWitnessSet_new_def example_bytesToHex previewRow_def example_toLowerCase
       hexVal_def createTxRecord_def example_state_def example_record_def example_body_def
       example_preview_def example_utxo_index)

lemma example_state_reachable: "reachable example_cfg example_state"
  using reachable.create[OF reachable.start[OF example_startup_ok], of example_gateway
      "\<lparr>c_mode = None, c_destAddress = Some ''addr_dest'', c_outputs = None\<rparr>"]
  by (simp add: example_create)

lemma example_intake_A:
  "witness_handler example_lib
     \<lparr>w_txId = Some ''01'', signerKeyHashHex = None,
      witnessHex = Some (WitnessSetCbor (TransactionWitnessSet_new\<lparr>vkeys := Some [vwA, vwZ]\<rparr>))\<rparr>
     example_state
   = (WitnessAccepted [''0a''] [''0c''] 1 2, example_state_A)"
  by (simp add: witness_handler_def getTxRecord_def extractVkeys_def TransactionWitnessSet_new_def
      example_state_def example_requiredSet example_keyHashes addWitness_def status_def Let_def
      example_state_A_def)
     (simp add: example_record_def)

lemma example_state_A_reachable: "reachable example_cfg example_state_A"
  using reachable.witness[OF example_state_reachable, of
      "\<lparr>w_txId = Some ''01'', signerKeyHashHex = None,
        witnessHex = Some (WitnessSetCbor (TransactionWitnessSet_new\<lparr>vkeys := Some [vwA, vwZ]\<rparr>))\<rparr>"]
  by (simp add: example_intake_A example_cfg_def)

section \<open>Witness intake\<close>

text \<open>
  The route of the server with the fixed payment script, on a parseable blob: the result
  in terms of \<open>storeAccepted\<close>.
\<close>

lemma witness_handler_parseable:
  assumes tx: "txId' \<noteq> []"
    and rec: "getTxRecord txId' (txs st) = Some rec"
    and ex: "extractVkeys blob = Inr v"
  shows "witness_handler lib \<lparr>w_txId = Some txId', signerKeyHashHex = s, witnessHex = Some blob\<rparr> st =
     (let vks = (case v of None \<Rightarrow> [] | Some l \<Rightarrow> l);
          khs = map (keyHashHexOf lib) vks;
          required = Set_from (map toLowerCase (signersKeyHashes rec));
          accepted = filter (\<lambda>kh. kh \<in> set required) khs;
          ignored = filter (\<lambda>kh. kh \<notin> set required) khs;
          rec' = rec\<lparr>witnesses := storeAccepted lib required vks (witnesses rec)\<rparr>
      in if vks = [] then (EmptyVkeys, st)
         else if accepted = [] then (SignerNotAllowed ignored required, st)
         else (WitnessAccepted accepted ignored (length (witnesses rec')) (rec_m rec),
               st\<lparr>txs := AList.update txId' rec' (txs st)\<rparr>))"
proof -
  let ?vks = "case v of None \<Rightarrow> [] | Some l \<Rightarrow> l"
  let ?R = "Set_from (map toLowerCase (signersKeyHashes rec))"
  have th: "truthy_hex (Some blob)"
    using ex by (cases blob) (simp_all add: extractVkeys_def)
  have m: "map_of (txs st) txId' = Some rec" using rec by (simp add: getTxRecord_def)
  show ?thesis
  proof (cases "?vks = []")
    case True
    then show ?thesis using tx rec ex th
      by (cases v) (simp_all add: witness_handler_def Let_def)
  next
    case False
    then obtain l where v: "v = Some l" "l \<noteq> []" by (cases v) auto
    have noacc: "storeAccepted lib ?R l (witnesses rec) = witnesses rec"
      if "filter (\<lambda>kh. kh \<in> set ?R) (map (keyHashHexOf lib) l) = []"
    proof -
      from that have "filter (\<lambda>vw. keyHashHexOf lib vw \<in> set ?R) l = []"
        by (simp add: filter_empty_conv)
      then show ?thesis by (simp add: storeAccepted_def)
    qed
    show ?thesis using tx rec ex th v m
      by (auto simp add: witness_handler_def Let_def witnessLoop_found[OF m] status_def
          AList.update_conv' noacc AList.update_triv)
  qed
qed

text \<open>
  The route of \<^verbatim>\<open>src/server.js\<close> and the route of the server with the hard-coded
  allow-list, on a parseable blob.
\<close>

lemma witness_handler_server_js_parseable:
  assumes tx: "txId' \<noteq> []"
    and rec: "getTxRecord txId' (txs st) = Some rec"
    and ex: "extractVkeys blob = Inr v"
  shows "witness_handler_server_js lib
           \<lparr>w_txId = Some txId', signerKeyHashHex = s, witnessHex = Some blob\<rparr> st =
     (let vks = (case v of None \<Rightarrow> [] | Some l \<Rightarrow> l) in
      if \<not> truthy s \<and> TransactionWitnessSet_from_bytes blob = None then (ServerError CslError, st)
      else if \<not> truthy s \<and> vks = [] then (EmptyVkeys, st)
      else
        let signer = (if truthy s then the s
                      else bytesToHex (public_key_hash lib (vkey (hd vks))))
        in if signer \<notin> set (signersKeyHashes rec) then (SignerNotInRequiredSet, st)
           else
             let rec' = rec\<lparr>witnesses := AList.update signer blob (witnesses rec)\<rparr>
             in (WitnessStored (length (witnesses rec')) (rec_m rec),
                 st\<lparr>txs := AList.update txId' rec' (txs st)\<rparr>))"
proof -
  have th: "truthy_hex (Some blob)"
    using ex by (cases blob) (simp_all add: extractVkeys_def)
  have m: "map_of (txs st) txId' = Some rec" using rec by (simp add: getTxRecord_def)
  show ?thesis
  proof (cases "TransactionWitnessSet_from_bytes blob")
    case None
    then show ?thesis using tx rec th m
      by (simp add: witness_handler_server_js_def signer_server_js_def Let_def addWitness_def)
  next
    case (Some ws)
    then have v: "v = vkeys ws" using ex by (simp add: extractVkeys_def)
    show ?thesis
    proof (cases "vkeys ws")
      case None
      then show ?thesis using tx rec th m Some v
        by (simp add: witness_handler_server_js_def signer_server_js_def Let_def addWitness_def)
    next
      case (Some l)
      then show ?thesis using tx rec th m \<open>TransactionWitnessSet_from_bytes blob = Some ws\<close> v
        by (cases l)
           (simp_all add: witness_handler_server_js_def signer_server_js_def Let_def
              addWitness_def)
    qed
  qed
qed

lemma witness_handler_allowlist_parseable:
  assumes tx: "txId' \<noteq> []"
    and rec: "getTxRecord txId' (txs st) = Some rec"
    and ex: "extractVkeys blob = Inr v"
  shows "witness_handler_allowlist lib
           \<lparr>w_txId = Some txId', signerKeyHashHex = s, witnessHex = Some blob\<rparr> st =
     (let vks = (case v of None \<Rightarrow> [] | Some l \<Rightarrow> l) in
      if \<not> truthy s \<and> vks = [] then (EmptyVkeys, st)
      else
        let signer = toLowerCase (if truthy s then the s
                                  else bytesToHex (public_key_hash lib (vkey (hd vks))))
        in if signer \<notin> set (signersKeyHashes rec) then (SignerNotInRequiredSet, st)
           else
             let rec' = rec\<lparr>witnesses := AList.update signer blob (witnesses rec)\<rparr>
             in (WitnessStored (length (witnesses rec')) (rec_m rec),
                 st\<lparr>txs := AList.update txId' rec' (txs st)\<rparr>))"
proof -
  have th: "truthy_hex (Some blob)"
    using ex by (cases blob) (simp_all add: extractVkeys_def)
  have m: "map_of (txs st) txId' = Some rec" using rec by (simp add: getTxRecord_def)
  show ?thesis
  proof (cases v)
    case None
    then show ?thesis using tx rec th m ex
      by (simp add: witness_handler_allowlist_def signer_allowlist_def Let_def addWitness_def)
  next
    case (Some l)
    then show ?thesis using tx rec th m ex
      by (cases l)
         (simp_all add: witness_handler_allowlist_def signer_allowlist_def Let_def
            addWitness_def)
  qed
qed

lemma storeAccepted_explicit:
  "storeAccepted lib required vks ws =
     fold (\<lambda>vw. AList.update (keyHashHexOf lib vw)
                   (WitnessSetCbor \<lparr>vkeys = Some [vw], native_scripts = None, other_fields = []\<rparr>))
       (filter (\<lambda>vw. keyHashHexOf lib vw \<in> set required) vks) ws"
  by (simp add: storeAccepted_def wsSingle_def TransactionWitnessSet_new_def)

text \<open>
  Claim C2, as the specification states it, says that every key witness of a parseable
  blob is attributed by hashing its vkey, that what is stored for a required key hash is
  a witness set with that one key witness, and that a submission in which no key witness
  is accepted fails with SignerNotAllowed. Two inputs show otherwise. In the server with
  the fixed payment script, a parseable witness set without key witnesses is answered by
  the guard before the loop, with \<^verbatim>\<open>empty_vkeys\<close>. In \<^verbatim>\<open>src/server.js\<close>, a blob with the two
  key witnesses \<open>vwZ\<close> (key hash \<^verbatim>\<open>0c\<close>, not required) and \<open>vwA\<close>, sent with the declared
  signer \<^verbatim>\<open>0a\<close>, is stored whole under \<^verbatim>\<open>0a\<close>: no vkey is hashed, nothing is reported as
  ignored, and the stored witness set holds both key witnesses.
\<close>

theorem witness_intake_counterexample:
  "extractVkeys (WitnessSetCbor TransactionWitnessSet_new) = Inr None
   \<and> witness_handler example_lib
        \<lparr>w_txId = Some ''01'', signerKeyHashHex = None,
         witnessHex = Some (WitnessSetCbor TransactionWitnessSet_new)\<rparr> example_state
      = (EmptyVkeys, example_state)
   \<and> witness_handler_server_js example_lib
        \<lparr>w_txId = Some ''01'', signerKeyHashHex = Some ''0a'',
         witnessHex = Some (WitnessSetCbor
           \<lparr>vkeys = Some [vwZ, vwA], native_scripts = None, other_fields = []\<rparr>)\<rparr> example_state
      = (WitnessStored 1 2,
         \<lparr>txs = [(''01'', example_record\<lparr>witnesses :=
                   [(''0a'', WitnessSetCbor
                      \<lparr>vkeys = Some [vwZ, vwA], native_scripts = None, other_fields = []\<rparr>)]\<rparr>)],
          latestSession = Some (''01'', example_preview)\<rparr>)"
proof -
  have a: "extractVkeys (WitnessSetCbor TransactionWitnessSet_new) = Inr None"
    by (simp add: extractVkeys_def TransactionWitnessSet_new_def)
  have b: "witness_handler example_lib
        \<lparr>w_txId = Some ''01'', signerKeyHashHex = None,
         witnessHex = Some (WitnessSetCbor TransactionWitnessSet_new)\<rparr> example_state
      = (EmptyVkeys, example_state)"
    by (simp add: witness_handler_def getTxRecord_def extractVkeys_def TransactionWitnessSet_new_def
        example_state_def Let_def)
  have c: "witness_handler_server_js example_lib
        \<lparr>w_txId = Some ''01'', signerKeyHashHex = Some ''0a'',
         witnessHex = Some (WitnessSetCbor
           \<lparr>vkeys = Some [vwZ, vwA], native_scripts = None, other_fields = []\<rparr>)\<rparr> example_state
      = (WitnessStored 1 2,
         \<lparr>txs = [(''01'', example_record\<lparr>witnesses :=
                   [(''0a'', WitnessSetCbor
                      \<lparr>vkeys = Some [vwZ, vwA], native_scripts = None, other_fields = []\<rparr>)]\<rparr>)],
          latestSession = Some (''01'', example_preview)\<rparr>)"
    by (simp add: witness_handler_server_js_def signer_server_js_def getTxRecord_def
        example_state_def addWitness_def Let_def)
       (simp add: example_record_def)
  show ?thesis using a b c by blast
qed

text \<open>
  Claim C2, amended. For a submission with a parseable blob (a witness set or a full
  transaction) against an existing session, the three versions of the witness route do
  the following.

  The server with the fixed payment script (\<open>witness_handler\<close>): the key hash of every
  key witness is the lower-case hex of the hash of its vkey (\<open>keyHashHexOf\<close>); the key
  witnesses whose key hash is required are stored, each under its key hash as the
  serialized witness set that holds that key witness and nothing else, and their key
  hashes are reported in \<^verbatim>\<open>accepted\<close>; the others are not stored and are reported in
  \<^verbatim>\<open>ignored\<close>. A blob without key witnesses fails with \<^verbatim>\<open>empty_vkeys\<close>; a blob with key
  witnesses none of which is accepted fails with SignerNotAllowed carrying the ignored
  list; in both cases the state, and so the session's witness map, is unchanged.

  \<^verbatim>\<open>src/server.js\<close> (\<open>witness_handler_server_js\<close>) and the server with the hard-coded
  allow-list (\<open>witness_handler_allowlist\<close>): the submission is attributed to the declared
  \<^verbatim>\<open>signerKeyHashHex\<close> when one is sent, and otherwise to the hex of the hash of the vkey of
  the first key witness of the blob (\<^verbatim>\<open>empty_vkeys\<close> when it has none; in \<^verbatim>\<open>src/server.js\<close>,
  which then parses the blob as a witness set only, \<^verbatim>\<open>server_error\<close> when it is a full
  transaction); the allow-list server lower-cases this key hash. If the key hash is not
  among the session's required key hashes the request fails with
  \<^verbatim>\<open>signer_not_in_required_set\<close> and the state is unchanged; otherwise the blob is stored
  under it as it was received, and the reply carries the number of stored blobs and \<open>m\<close>.
\<close>

theorem witness_intake:
  assumes tx: "txId' \<noteq> []"
    and rec: "getTxRecord txId' (txs st) = Some rec"
    and ex: "extractVkeys blob = Inr v"
  shows
    "witness_handler lib \<lparr>w_txId = Some txId', signerKeyHashHex = s, witnessHex = Some blob\<rparr> st =
       (let vks = (case v of None \<Rightarrow> [] | Some l \<Rightarrow> l);
            khs = map (keyHashHexOf lib) vks;
            required = Set_from (map toLowerCase (signersKeyHashes rec));
            accepted = filter (\<lambda>kh. kh \<in> set required) khs;
            ignored = filter (\<lambda>kh. kh \<notin> set required) khs;
            rec' = rec\<lparr>witnesses :=
                     fold (\<lambda>vw. AList.update (keyHashHexOf lib vw)
                                   (WitnessSetCbor \<lparr>vkeys = Some [vw], native_scripts = None,
                                                    other_fields = []\<rparr>))
                       (filter (\<lambda>vw. keyHashHexOf lib vw \<in> set required) vks) (witnesses rec)\<rparr>
        in if vks = [] then (EmptyVkeys, st)
           else if accepted = [] then (SignerNotAllowed ignored required, st)
           else (WitnessAccepted accepted ignored (length (witnesses rec')) (rec_m rec),
                 st\<lparr>txs := AList.update txId' rec' (txs st)\<rparr>))
     \<and> witness_handler_server_js lib
         \<lparr>w_txId = Some txId', signerKeyHashHex = s, witnessHex = Some blob\<rparr> st =
       (let vks = (case v of None \<Rightarrow> [] | Some l \<Rightarrow> l) in
        if \<not> truthy s \<and> TransactionWitnessSet_from_bytes blob = None
        then (ServerError CslError, st)
        else if \<not> truthy s \<and> vks = [] then (EmptyVkeys, st)
        else
          let signer = (if truthy s then the s
                        else bytesToHex (public_key_hash lib (vkey (hd vks))))
          in if signer \<notin> set (signersKeyHashes rec) then (SignerNotInRequiredSet, st)
             else
               let rec' = rec\<lparr>witnesses := AList.update signer blob (witnesses rec)\<rparr>
               in (WitnessStored (length (witnesses rec')) (rec_m rec),
                   st\<lparr>txs := AList.update txId' rec' (txs st)\<rparr>))
     \<and> witness_handler_allowlist lib
         \<lparr>w_txId = Some txId', signerKeyHashHex = s, witnessHex = Some blob\<rparr> st =
       (let vks = (case v of None \<Rightarrow> [] | Some l \<Rightarrow> l) in
        if \<not> truthy s \<and> vks = [] then (EmptyVkeys, st)
        else
          let signer = toLowerCase (if truthy s then the s
                                    else bytesToHex (public_key_hash lib (vkey (hd vks))))
          in if signer \<notin> set (signersKeyHashes rec) then (SignerNotInRequiredSet, st)
             else
               let rec' = rec\<lparr>witnesses := AList.update signer blob (witnesses rec)\<rparr>
               in (WitnessStored (length (witnesses rec')) (rec_m rec),
                   st\<lparr>txs := AList.update txId' rec' (txs st)\<rparr>))"
  using witness_handler_parseable[OF tx rec ex, of lib s]
    witness_handler_server_js_parseable[OF tx rec ex, of lib s]
    witness_handler_allowlist_parseable[OF tx rec ex, of lib s]
  unfolding storeAccepted_explicit by simp

theorem witness_intake_witness:
  "''01'' \<noteq> []
   \<and> getTxRecord ''01'' (txs example_state) = Some example_record
   \<and> extractVkeys (WitnessSetCbor (TransactionWitnessSet_new\<lparr>vkeys := Some [vwA, vwZ]\<rparr>))
       = Inr (Some [vwA, vwZ])
   \<and> witness_handler example_lib
        \<lparr>w_txId = Some ''01'', signerKeyHashHex = None,
         witnessHex = Some (WitnessSetCbor (TransactionWitnessSet_new\<lparr>vkeys := Some [vwA, vwZ]\<rparr>))\<rparr>
        example_state
      = (WitnessAccepted [''0a''] [''0c''] 1 2, example_state_A)
   \<and> witness_handler_server_js example_lib
        \<lparr>w_txId = Some ''01'', signerKeyHashHex = None,
         witnessHex = Some (WitnessSetCbor (TransactionWitnessSet_new\<lparr>vkeys := Some [vwA, vwZ]\<rparr>))\<rparr>
        example_state
      = (WitnessStored 1 2,
         example_state\<lparr>txs := [(''01'', example_record\<lparr>witnesses :=
            [(''0a'', WitnessSetCbor (TransactionWitnessSet_new\<lparr>vkeys := Some [vwA, vwZ]\<rparr>))]\<rparr>)]\<rparr>)
   \<and> witness_handler_allowlist example_lib
        \<lparr>w_txId = Some ''01'', signerKeyHashHex = None,
         witnessHex = Some (WitnessSetCbor (TransactionWitnessSet_new\<lparr>vkeys := Some [vwA, vwZ]\<rparr>))\<rparr>
        example_state
      = (WitnessStored 1 2,
         example_state\<lparr>txs := [(''01'', example_record\<lparr>witnesses :=
            [(''0a'', WitnessSetCbor (TransactionWitnessSet_new\<lparr>vkeys := Some [vwA, vwZ]\<rparr>))]\<rparr>)]\<rparr>)"
proof -
  have g: "getTxRecord ''01'' (txs example_state) = Some example_record"
    by (simp add: getTxRecord_def example_state_def)
  have e: "extractVkeys (WitnessSetCbor (TransactionWitnessSet_new\<lparr>vkeys := Some [vwA, vwZ]\<rparr>))
       = Inr (Some [vwA, vwZ])"
    by (simp add: extractVkeys_def TransactionWitnessSet_new_def)
  have n: "''01'' \<noteq> []" by simp
  have k: "bytesToHex (public_key_hash example_lib (vkey vwA)) = ''0a''"
    by (simp add: example_lib_def vwA_def example_bytesToHex)
  have sg: "signersKeyHashes example_record = [''0a'', ''0b'']"
    "witnesses example_record = []" "rec_m example_record = 2"
    by (simp_all add: example_record_def)
  have rs: "Set_from [''0a'', ''0b''] = [''0a'', ''0b'']"
    by (simp add: Set_from_def set_add_def)
  show ?thesis
    using witness_intake[OF n g e, of example_lib None] g e
    by (simp add: rs example_keyHashes Let_def k sg example_toLowerCase
        wsSingle_def TransactionWitnessSet_new_def example_state_A_def)
       (simp add: example_state_def)
qed

section \<open>The invariant of the session store\<close>

text \<open>
  Claim C3. In every state the server reaches from the empty store by create, witness,
  submit and reset requests, the keys of the witness map of every session are among that
  session's required key hashes.
\<close>

theorem witnesses_subset_required:
  "reachable cfg st \<Longrightarrow> getTxRecord txId' (txs st) = Some rec \<Longrightarrow>
     set (map fst (witnesses rec)) \<subseteq> set (signersKeyHashes rec)"
  using reachable_store_inv[of cfg st] store_inv_lookup[of "txs st" txId' rec]
  by (simp add: getTxRecord_def session_inv_def)

theorem witnesses_subset_required_witness:
  "reachable example_cfg example_state_A
   \<and> getTxRecord ''01'' (txs example_state_A)
       = Some (example_record\<lparr>witnesses := [(''0a'', wsSingle vwA)]\<rparr>)
   \<and> set (map fst (witnesses (example_record\<lparr>witnesses := [(''0a'', wsSingle vwA)]\<rparr>)))
       \<subseteq> set (signersKeyHashes (example_record\<lparr>witnesses := [(''0a'', wsSingle vwA)]\<rparr>))"
proof -
  have g: "getTxRecord ''01'' (txs example_state_A)
       = Some (example_record\<lparr>witnesses := [(''0a'', wsSingle vwA)]\<rparr>)"
    by (simp add: getTxRecord_def example_state_A_def)
  show ?thesis
    using witnesses_subset_required[OF example_state_A_reachable g] example_state_A_reachable g
    by simp
qed

section \<open>Submission\<close>

text \<open>
  Claim C4. A submit request for an existing session with fewer collected witnesses than
  its threshold fails with NotEnoughWitnesses carrying the collected count and the
  threshold; nothing is handed to the gateway and the state is unchanged.
\<close>

theorem submit_not_enough:
  "txId' \<noteq> [] \<Longrightarrow> getTxRecord txId' (txs st) = Some rec \<Longrightarrow>
   length (witnesses rec) < rec_m rec \<Longrightarrow>
   submit_handler gw (Some txId') st
     = (NotEnoughWitnesses (length (witnesses rec)) (rec_m rec), st, [])"
  by (simp add: submit_handler_def Let_def)

theorem submit_not_enough_witness:
  "''01'' \<noteq> []
   \<and> getTxRecord ''01'' (txs example_state_A)
       = Some (example_record\<lparr>witnesses := [(''0a'', wsSingle vwA)]\<rparr>)
   \<and> submit_handler example_gateway (Some ''01'') example_state_A
       = (NotEnoughWitnesses 1 2, example_state_A, [])"
proof -
  have g: "getTxRecord ''01'' (txs example_state_A)
       = Some (example_record\<lparr>witnesses := [(''0a'', wsSingle vwA)]\<rparr>)"
    by (simp add: getTxRecord_def example_state_A_def)
  have n: "''01'' \<noteq> []" by simp
  have l: "length (witnesses (example_record\<lparr>witnesses := [(''0a'', wsSingle vwA)]\<rparr>))
       < rec_m (example_record\<lparr>witnesses := [(''0a'', wsSingle vwA)]\<rparr>)"
    by (simp add: example_record_def)
  show ?thesis
    using submit_not_enough[OF n g l, of example_gateway] g
    by (simp add: example_record_def)
qed

text \<open>
  Claim C5, as the specification states it, says that when a stored witness fails to
  parse during assembly the session is cleared. The submit route answers
  \<^verbatim>\<open>submit_failed\<close> from the \<^verbatim>\<open>catch\<close> that also serves a gateway rejection, and leaves the
  session in the store.
\<close>

theorem submit_parse_failure_counterexample:
  "submit_handler example_gateway (Some ''01'')
     \<lparr>txs = [(''01'', example_record\<lparr>rec_m := 1, witnesses := [(''0a'', OtherBytes ''zz'')]\<rparr>)],
      latestSession = None\<rparr>
   = (SubmitFailed (ExceptionText CslException),
      \<lparr>txs = [(''01'', example_record\<lparr>rec_m := 1, witnesses := [(''0a'', OtherBytes ''zz'')]\<rparr>)],
       latestSession = None\<rparr>,
      [])"
  by (simp add: submit_handler_def getTxRecord_def assembleAndSerializeTx_def aggVkeys_def
      example_record_def)

text \<open>
  Claim C5, amended. For a submit request on a session that meets the witness-count
  precondition: if the assembly fails (a stored witness, the body or the script does not
  parse), the answer is \<^verbatim>\<open>submit_failed\<close>, nothing is handed to the gateway and the state
  is unchanged, so the session stays; if the gateway accepts the assembled transaction,
  the transaction hash is returned and the session is removed from the store; if the
  gateway rejects it, the answer is \<^verbatim>\<open>submit_failed\<close> carrying the node's diagnostic when
  there is one (\<open>rejectionDetail\<close>), and the state is unchanged.
\<close>

theorem submit_outcomes:
  assumes "txId' \<noteq> []" and "getTxRecord txId' (txs st) = Some rec"
    and "rec_m rec \<le> length (witnesses rec)"
  shows "(case assembleAndSerializeTx (recTxBodyHex rec) (scriptHex rec) (map snd (witnesses rec)) of
            Inl e \<Rightarrow> submit_handler gw (Some txId') st = (SubmitFailed (ExceptionText e), st, [])
          | Inr txBytes \<Rightarrow>
              (case submitTx gw txBytes of
                 Accepted txHash \<Rightarrow>
                   submit_handler gw (Some txId') st
                     = (Submitted txHash, st\<lparr>txs := clearTx txId' (txs st)\<rparr>, [txBytes])
                   \<and> getTxRecord txId' (clearTx txId' (txs st)) = None
               | Rejected data msg \<Rightarrow>
                   submit_handler gw (Some txId') st
                     = (SubmitFailed (rejectionDetail data msg), st, [txBytes])))"
  using assms
  by (auto simp: submit_handler_def Let_def getTxRecord_def clearTx_def AList.delete_conv'
      split: sum.splits gateway_reply.splits option.splits)

theorem submit_outcomes_witness:
  "''01'' \<noteq> []
   \<and> getTxRecord ''01'' (txs example_state_AB)
       = Some (example_record\<lparr>witnesses := [(''0a'', wsSingle vwA), (''0b'', wsSingle vwB)]\<rparr>)
   \<and> submit_handler example_gateway (Some ''01'') example_state_AB
       = (Submitted ''txhash'',
          \<lparr>txs = [], latestSession = Some (''01'', example_preview)\<rparr>,
          [TransactionCbor (Transaction example_body
             \<lparr>vkeys = Some [vwA, vwB], native_scripts = Some [example_script],
              other_fields = []\<rparr>)])"
proof -
  have g: "getTxRecord ''01'' (txs example_state_AB)
       = Some (example_record\<lparr>witnesses := [(''0a'', wsSingle vwA), (''0b'', wsSingle vwB)]\<rparr>)"
    by (simp add: getTxRecord_def example_state_AB_def)
  have n: "''01'' \<noteq> []" by simp
  have l: "rec_m (example_record\<lparr>witnesses := [(''0a'', wsSingle vwA), (''0b'', wsSingle vwB)]\<rparr>)
       \<le> length (witnesses (example_record\<lparr>witnesses := [(''0a'', wsSingle vwA), (''0b'', wsSingle vwB)]\<rparr>))"
    by (simp add: example_record_def)
  show ?thesis
    using submit_outcomes[OF n g l, of example_gateway] g
    by (simp add: example_record_def assembleAndSerializeTx_def aggVkeys_def wsSingle_def
        TransactionWitnessSet_new_def example_gateway_def clearTx_def example_state_AB_def)
qed

section \<open>Assembly and the order of insertion\<close>

text \<open>
  Claim C10, as the specification states it, says that the assembler sorts the key
  witnesses by key hash, so that the serialized transaction does not depend on the order
  of insertion. The assembler appends the key witnesses in the iteration order of the
  witness map, which is the order of insertion: inserting the witness of \<^verbatim>\<open>0a\<close> before
  that of \<^verbatim>\<open>0b\<close>, or after it, gives two different transactions.
\<close>

theorem assemble_order_counterexample:
  "assembleSession ''01''
     (insertWitnesses ''01'' [(''0a'', wsSingle vwA), (''0b'', wsSingle vwB)] (txs example_state))
   \<noteq> assembleSession ''01''
     (insertWitnesses ''01'' [(''0b'', wsSingle vwB), (''0a'', wsSingle vwA)] (txs example_state))"
  by (simp add: assembleSession_def insertWitnesses_def addWitness_def getTxRecord_def
      assembleAndSerializeTx_def aggVkeys_def wsSingle_def TransactionWitnessSet_new_def
      example_state_def example_record_def vwA_def vwB_def Let_def)

text \<open>
  Claim C10, amended. For a session without witnesses and two orders of inserting the
  same witnesses under distinct key hashes, the assembler is given the witnesses in the
  order of insertion, and the two results agree up to the order of the key witnesses:
  both fail, or both are transactions with the same body, the same native script and the
  same key witnesses.
\<close>

theorem assemble_insertion_order:
  assumes "getTxRecord txId' txs0 = Some rec" and "witnesses rec = []"
    and "distinct (map fst ins1)" and "mset ins1 = mset ins2"
  shows "assembleSession txId' (insertWitnesses txId' ins1 txs0)
           = Some (assembleAndSerializeTx (recTxBodyHex rec) (scriptHex rec) (map snd ins1))
       \<and> assembleSession txId' (insertWitnesses txId' ins2 txs0)
           = Some (assembleAndSerializeTx (recTxBodyHex rec) (scriptHex rec) (map snd ins2))
       \<and> sameUpToWitnessOrder
           (assembleAndSerializeTx (recTxBodyHex rec) (scriptHex rec) (map snd ins1))
           (assembleAndSerializeTx (recTxBodyHex rec) (scriptHex rec) (map snd ins2))"
proof -
  have m: "map_of txs0 txId' = Some rec" using assms(1) by (simp add: getTxRecord_def)
  have "mset (map fst ins1) = mset (map fst ins2)" using assms(4) by simp
  then have d2: "distinct (map fst ins2)"
    using assms(3) mset_eq_imp_distinct_iff by blast
  have w1: "fold (\<lambda>e. AList.update (fst e) (snd e)) ins1 [] = ins1"
    using fold_update_fresh[OF assms(3), of "[]"] by simp
  have w2: "fold (\<lambda>e. AList.update (fst e) (snd e)) ins2 [] = ins2"
    using fold_update_fresh[OF d2, of "[]"] by simp
  have p: "mset (map snd ins1) = mset (map snd ins2)" using assms(4) by simp
  show ?thesis
    using assms(2) w1 w2 assemble_perm[OF p]
    by (simp add: assembleSession_def getTxRecord_def insertWitnesses_found[OF m]
        AList.update_conv')
qed

theorem assemble_insertion_order_witness:
  "getTxRecord ''01'' (txs example_state) = Some example_record
   \<and> witnesses example_record = []
   \<and> distinct (map fst [(''0a'', wsSingle vwA), (''0b'', wsSingle vwB)])
   \<and> mset [(''0a'', wsSingle vwA), (''0b'', wsSingle vwB)]
       = mset [(''0b'', wsSingle vwB), (''0a'', wsSingle vwA)]
   \<and> sameUpToWitnessOrder
       (assembleAndSerializeTx (recTxBodyHex example_record) (scriptHex example_record)
          [wsSingle vwA, wsSingle vwB])
       (assembleAndSerializeTx (recTxBodyHex example_record) (scriptHex example_record)
          [wsSingle vwB, wsSingle vwA])"
proof -
  have g: "getTxRecord ''01'' (txs example_state) = Some example_record"
    by (simp add: getTxRecord_def example_state_def)
  have w: "witnesses example_record = []" by (simp add: example_record_def)
  have d: "distinct (map fst [(''0a'', wsSingle vwA), (''0b'', wsSingle vwB)])" by simp
  have p: "mset [(''0a'', wsSingle vwA), (''0b'', wsSingle vwB)]
       = mset [(''0b'', wsSingle vwB), (''0a'', wsSingle vwA)]"
    by (simp add: add.commute)
  show ?thesis
    using assemble_insertion_order[OF g w d p] g w d p by simp
qed

section \<open>The builder examples, evaluated\<close>

lemma example_unitKey: "unitKey example_unit = (example_policy, ''4e'')"
  by (simp add: unitKey_def example_unit_def example_policy_def toLowerCase_def toLowerChar_def)

lemma example_policy_hexToBytes: "hexToBytes example_policy = example_policy_bytes"
  by (simp add: example_policy_def example_policy_bytes_def hexVal_def)

lemma example_policy_bytesToHex: "bytesToHex example_policy_bytes = example_policy"
  by (simp add: example_policy_def example_policy_bytes_def bytesToHex_def byteToHex_def
      hexDigit_def)

lemma example_name_bytes: "hexToBytes ''4e'' = [0x4e]" "bytesToHex [0x4e] = ''4e''"
  by (simp_all add: hexVal_def bytesToHex_def byteToHex_def hexDigit_def)

lemma example_token_tx_hash: "length (hexToBytes (tx_hash (token_utxo c q))) = 32"
  by (simp add: token_utxo_def hexVal_def)

lemma example_unit_lower: "toLowerCase example_unit = example_unit"
  by (simp add: example_unit_def example_policy_def toLowerCase_def toLowerChar_def)

lemma example_unit_split: "take 56 example_unit = example_policy" "drop 56 example_unit = ''4e''"
  by (simp_all add: example_unit_def example_policy_def)

lemma example_policy_length: "length example_policy_bytes = 28"
  by (simp add: example_policy_bytes_def)

lemma example_unit_not_lovelace: "example_unit \<noteq> ''lovelace''"
  by (simp add: example_unit_def example_policy_def)

lemma example_inputUnitKey: "inputUnitKey example_unit = (example_policy, ''4e'')"
  by (simp add: inputUnitKey_def example_unit_lower example_unit_split
      example_policy_hexToBytes example_policy_bytesToHex example_name_bytes
      del: hexToBytes.simps)

lemma example_carried: "carried [token_utxo c q] example_policy ''4e'' = q"
  by (simp add: carried_def wireSum_def token_utxo_def example_unit_not_lovelace
      example_inputUnitKey)

lemma example_sumUtxos_token:
  "0 \<le> c \<Longrightarrow> c < 2 ^ 64 \<Longrightarrow> 0 \<le> q \<Longrightarrow> q < 2 ^ 64 \<Longrightarrow>
   sumUtxos [token_utxo c q]
     = Inr \<lparr>coin = c, multiasset = Some [(example_policy_bytes, [([0x4e], q)])]\<rparr>"
  by (simp add: sumUtxos_def utxoValue_def example_token_tx_hash TransactionHash_from_bytes_def)
     (simp add: token_utxo_def BigNum_from_str_def addAssetsToValue_def addAssetStep_def
       example_unit_lower example_unit_split example_policy_hexToBytes example_name_bytes
       example_policy_length ScriptHash_from_bytes_def AssetName_new_def
       example_unit_not_lovelace Let_def mergeValue_def checked_add_def mergePolicy_def
       mergeName_def del: hexToBytes.simps)

lemma example_valueToJs_token:
  "valueToJs \<lparr>coin = c, multiasset = Some [(example_policy_bytes, [([0x4e], q)])]\<rparr>
     = (c, [(example_policy, [(''4e'', q)])])"
  by (simp add: valueToJs_def example_policy_bytesToHex example_name_bytes jsNameAdd_def Let_def)

lemma example_fromSpec:
  "jsAssetsFromOutputSpec [(example_unit, q)] = [(example_policy, [(''4e'', q)])]"
  by (simp add: jsAssetsFromOutputSpec_def example_unit_lower example_unit_split jsNameAdd_def
      Let_def)

lemma example_plan:
  "planOutputs default_env (explicit_opts us [token_request q]) t
     = Inr ([\<lparr>spec_address = ''addr_x'', spec_coin = 2000000,
               assetsMap = [(example_policy, [(''4e'', q)])]\<rparr>],
            2000000, [(example_policy, [(''4e'', q)])])"
  by (simp add: planOutputs_def explicit_opts_def explicitStep_def token_request_def
      example_fromSpec MIN_ADA_def default_env_def Let_def jsAssetsIsEmpty_def jsAssetsAdd_def
      jsNameAdd_def)

lemma example_mkValue_tokens:
  "0 \<le> q \<Longrightarrow> q < 2 ^ 64 \<Longrightarrow> 2000000 \<le> c \<Longrightarrow> c < 2 ^ 64 \<Longrightarrow>
   mkValue 2000000 c [(example_policy, [(''4e'', q)])]
     = Inr \<lparr>coin = c, multiasset = Some [(example_policy_bytes, [([0x4e], q)])]\<rparr>"
  by (simp add: mkValue_def BigNum_from_str_def jsAssetsIsEmpty_def jsAssetsToValue_def
      example_policy_hexToBytes example_name_bytes ScriptHash_from_bytes_def AssetName_new_def
      example_policy_length bumpAdaIfTokens_def del: hexToBytes.simps)

lemma example_mkValue_plain:
  "0 \<le> c \<Longrightarrow> c < 2 ^ 64 \<Longrightarrow> mkValue m' c [] = Inr \<lparr>coin = c, multiasset = None\<rparr>"
  by (simp add: mkValue_def BigNum_from_str_def jsAssetsIsEmpty_def)

lemma example_requiredSigners: "requiredSigners [''0a'', ''0b''] = []"
  by (simp add: requiredSigners_def example_toLowerCase hexVal_def)

lemma explicit_opts_fields:
  "bf (explicit_opts us os) = example_chain us"
  "multisigAddress (explicit_opts us os) = ''addr_multisig''"
  "paymentScriptHex (explicit_opts us os) = NativeScriptCbor example_script"
  "optRequiredKeyHashes (explicit_opts us os) = [''0a'', ''0b'']"
  "mode (explicit_opts us os) = ''explicit''"
  "optOutputs (explicit_opts us os) = Some os"
  by (simp_all add: explicit_opts_def)

lemma example_chain_fields:
  "protocolParams (example_chain us) = Some example_protocol"
  "utxosByAddress (example_chain us) a = Some us"
  by (simp_all add: example_chain_def)

lemma example_lib_fields:
  "bech32_valid example_lib a = True"
  "tb_accepts example_lib pp b = True"
  "hash_transaction example_lib b = [0x01]"
  by (simp_all add: example_lib_def)

lemma default_env_values: "MIN_ADA default_env = 2000000" "FIXED_FEE default_env = 1000000"
  by (simp_all add: MIN_ADA_def FIXED_FEE_def default_env_def)

lemmas example_build_defs =
  buildUnsignedTx_def explicit_opts_fields example_chain_fields example_lib_fields
  default_env_values example_plan Let_def specToOutput_def changeOutputs_def
  BigNum_from_str_def example_requiredSigners TransactionWitnessSet_new_def

lemma example_build_tokens:
  "map_sum id txBodyHex
     (buildUnsignedTx example_lib default_env
        (explicit_opts [token_utxo 10000000 5] [token_request 3]))
   = Inr (BodyCbor
       \<lparr>inputs = [\<lparr>transaction_id = hexToBytes (tx_hash (token_utxo 10000000 5)),
                   input_index = 1\<rparr>],
        outputs = [token_output ''addr_x'' 2000000 3, token_output ''addr_multisig'' 7000000 2],
        fee = 1000000, required_signers = []\<rparr>)"
  by (simp add: example_build_defs example_sumUtxos_token example_valueToJs_token
      jsAssetsSub_def jsSubName_def jsAssetsIsEmpty_def example_mkValue_tokens token_output_def
      del: hexToBytes.simps)
     (simp add: token_utxo_def)

section \<open>The builder: minimum coin of token-carrying outputs\<close>

text \<open>
  Claim C8. Every output of a successfully built transaction, the change output
  included, that has a multi-asset component holds at least \<open>MIN_ADA\<close> coin
  (\<^verbatim>\<open>MIN_ADA_LOVELACE\<close>, 2,000,000 when it is not set).
\<close>

theorem build_token_outputs_min_ada:
  assumes "buildUnsignedTx lib pe opts = Inr art" and "txBodyHex art = BodyCbor b"
    and "o' \<in> set (outputs b)" and "multiasset (amount o') \<noteq> None"
  shows "MIN_ADA pe \<le> coin (amount o')"
proof -
  from build_outputs[OF assms(1,2)]
  obtain totalValue and plan :: "out_spec list \<times> int \<times> js_assets" and changeAssets outs change where
    f: "foldE (\<lambda>outs spec. bindE (specToOutput lib (MIN_ADA pe) spec) (\<lambda>o'. Inr (outs @ [o'])))
          (fst plan) [] = Inr outs"
    and c: "changeOutputs lib (MIN_ADA pe) opts
              (fst (valueToJs totalValue) - fst (snd plan) - FIXED_FEE pe) changeAssets = Inr change"
    and o: "outputs b = outs @ change"
    by blast
  from assms(3) o consider "o' \<in> set outs" | "o' \<in> set change" by auto
  then show ?thesis
  proof cases
    case 1
    with outputs_fold_min[OF f] assms(4) show ?thesis by auto
  next
    case 2
    from changeOutputs_min[OF c 2 assms(4)] show ?thesis .
  qed
qed

theorem build_token_outputs_min_ada_witness:
  "map_sum id txBodyHex
     (buildUnsignedTx example_lib default_env
        (explicit_opts [token_utxo 10000000 5] [token_request 3]))
   = Inr (BodyCbor
       \<lparr>inputs = [\<lparr>transaction_id = hexToBytes (tx_hash (token_utxo 10000000 5)),
                   input_index = 1\<rparr>],
        outputs = [token_output ''addr_x'' 2000000 3, token_output ''addr_multisig'' 7000000 2],
        fee = 1000000, required_signers = []\<rparr>)
   \<and> multiasset (amount (token_output ''addr_multisig'' 7000000 2)) \<noteq> None
   \<and> MIN_ADA default_env \<le> coin (amount (token_output ''addr_multisig'' 7000000 2))"
proof -
  let ?b = "\<lparr>inputs = [\<lparr>transaction_id = hexToBytes (tx_hash (token_utxo 10000000 5)),
                   input_index = 1\<rparr>],
        outputs = [token_output ''addr_x'' 2000000 3, token_output ''addr_multisig'' 7000000 2],
        fee = 1000000, required_signers = []\<rparr>"
  from example_build_tokens obtain art where
    a: "buildUnsignedTx example_lib default_env
          (explicit_opts [token_utxo 10000000 5] [token_request 3]) = Inr art"
    and b: "txBodyHex art = BodyCbor ?b"
    by (cases "buildUnsignedTx example_lib default_env
          (explicit_opts [token_utxo 10000000 5] [token_request 3])") auto
  have m: "token_output ''addr_multisig'' 7000000 2 \<in> set (outputs ?b)" by simp
  have t: "multiasset (amount (token_output ''addr_multisig'' 7000000 2)) \<noteq> None"
    by (simp add: token_output_def)
  from build_token_outputs_min_ada[OF a b m t] t example_build_tokens show ?thesis by simp
qed

section \<open>The builder: insufficient tokens\<close>

text \<open>
  Claim C7, as the specification states it, says that an explicit build whose outputs
  demand more of some asset than the inputs carry fails with InsufficientTokens. The
  builder compares the coin first: with one UTxO of 1,000,000 lovelace and 5 tokens and
  a request for 6 tokens (whose output takes 2,000,000 lovelace), the build fails
  with InsufficientAda.
\<close>

theorem build_insufficient_tokens_counterexample:
  "carried [token_utxo 1000000 5] example_policy ''4e'' = 5
   \<and> demanded [token_request 6] example_policy ''4e'' = 6
   \<and> buildUnsignedTx example_lib default_env
        (explicit_opts [token_utxo 1000000 5] [token_request 6])
      = Inl InsufficientAda"
  by (simp add: example_carried demanded_def token_request_def example_unitKey)
     (simp add: example_build_defs example_sumUtxos_token example_valueToJs_token
       token_request_def[symmetric])

text \<open>
  Claim C7, amended. For every build in explicit mode whose inputs are read without
  error: if for some (policy id, asset name) of which the summed inputs carry a positive
  quantity, the requested outputs demand a strictly larger total quantity than the
  inputs carry, no transaction artifact is produced; the build fails with
  InsufficientTokens when the input coin covers the coin of the requested outputs plus
  the fee, and with InsufficientAda otherwise.
\<close>

theorem build_insufficient_tokens:
  assumes "mode opts = ''explicit''"
    and "protocolParams (bf opts) = Some pp"
    and "bech32_valid lib (multisigAddress opts)"
    and "utxosByAddress (bf opts) (multisigAddress opts) = Some utxos"
    and "sumUtxos utxos = Inr totalValue"
    and "0 < carried utxos p n"
    and "carried utxos p n < demanded (case optOutputs opts of None \<Rightarrow> [] | Some os \<Rightarrow> os) p n"
  shows "buildUnsignedTx lib pe opts =
     Inl (if requestedCoin (MIN_ADA pe) (case optOutputs opts of None \<Rightarrow> [] | Some os \<Rightarrow> os)
               + FIXED_FEE pe \<le> inputCoin utxos
          then InsufficientTokens else InsufficientAda)"
proof -
  let ?os = "case optOutputs opts of None \<Rightarrow> [] | Some os \<Rightarrow> os"
  let ?plan = "fold (explicitStep (MIN_ADA pe)) ?os ([], 0, [])"
  let ?js = "snd (valueToJs totalValue)"
  have q: "assetQty ?js p n = carried utxos p n"
    using assms(5) by (rule sumUtxos_assetQty)
  with assms(6) obtain inner where i1: "map_of ?js p = Some inner"
    and i2: "map_of inner n = Some (carried utxos p n)"
    using assetQty_pos_entry[of ?js p n] by auto
  have c: "coin totalValue = inputCoin utxos"
    using sumUtxos_sum[OF assms(5)] by simp
  have pl: "planOutputs pe opts (valueToJs totalValue) = Inr ?plan"
    using assms(1) by (simp add: planOutputs_def)
  have oc: "fst (snd ?plan) = requestedCoin (MIN_ADA pe) ?os"
    using explicit_fold(1)[of "MIN_ADA pe" ?os "([], 0, [])"] by simp
  have oa: "assetQty (snd (snd ?plan)) p n = demanded ?os p n"
    using explicit_fold(2)[of "MIN_ADA pe" ?os "([], 0, [])" p n] by simp
  have "jsAssetsSub ?js (snd (snd ?plan)) = Inl InsufficientTokens"
    using i1 i2 assms(7) oa
    by (intro jsAssetsSub_insufficient[where p = p and n = n and inner = inner
          and qa = "carried utxos p n"])
       (auto dest: map_of_SomeD)
  then show ?thesis
    using assms(2,3,4,5) pl oc c
    by (simp add: buildUnsignedTx_def Let_def valueToJs_def)
qed

theorem build_insufficient_tokens_witness:
  "mode (explicit_opts [token_utxo 10000000 5] [token_request 6]) = ''explicit''
   \<and> sumUtxos [token_utxo 10000000 5]
       = Inr \<lparr>coin = 10000000, multiasset = Some [(example_policy_bytes, [([0x4e], 5)])]\<rparr>
   \<and> carried [token_utxo 10000000 5] example_policy ''4e'' = 5
   \<and> demanded [token_request 6] example_policy ''4e'' = 6
   \<and> buildUnsignedTx example_lib default_env
        (explicit_opts [token_utxo 10000000 5] [token_request 6])
      = Inl InsufficientTokens"
proof -
  let ?opts = "explicit_opts [token_utxo 10000000 5] [token_request 6]"
  let ?v = "\<lparr>coin = 10000000, multiasset = Some [(example_policy_bytes, [([0x4e], 5)])]\<rparr>"
  have h1: "mode ?opts = ''explicit''" by (simp add: explicit_opts_fields)
  have h2: "protocolParams (bf ?opts) = Some example_protocol"
    by (simp add: explicit_opts_fields example_chain_fields)
  have h3: "bech32_valid example_lib (multisigAddress ?opts)" by (simp add: example_lib_fields)
  have h4: "utxosByAddress (bf ?opts) (multisigAddress ?opts) = Some [token_utxo 10000000 5]"
    by (simp add: explicit_opts_fields example_chain_fields)
  have h5: "sumUtxos [token_utxo 10000000 5] = Inr ?v" by (simp add: example_sumUtxos_token)
  have c: "carried [token_utxo 10000000 5] example_policy ''4e'' = 5"
    by (simp add: example_carried)
  have d: "demanded [token_request 6] example_policy ''4e'' = 6"
    by (simp add: demanded_def token_request_def example_unitKey)
  have h6: "0 < carried [token_utxo 10000000 5] example_policy ''4e''" by (simp add: c)
  have h7: "carried [token_utxo 10000000 5] example_policy ''4e''
      < demanded (case optOutputs ?opts of None \<Rightarrow> [] | Some os \<Rightarrow> os) example_policy ''4e''"
    by (simp add: explicit_opts_fields c d)
  have r: "requestedCoin 2000000 [token_request 6] = 2000000"
    by (simp add: requestedCoin_def token_request_def)
  have ic: "inputCoin [token_utxo 10000000 5] = 10000000"
    by (simp add: inputCoin_def token_utxo_def)
  from build_insufficient_tokens[OF h1 h2 h3 h4 h5 h6 h7, of default_env] h1 h5 c d
  show ?thesis
    by (simp add: explicit_opts_fields r ic default_env_values)
qed

section \<open>The builder: conservation\<close>

text \<open>
  Claim C1 says that a successfully built transaction conserves every asset. The
  subtraction \<^verbatim>\<open>jsAssetsSub(total, out)\<close> only visits the assets of the inputs, so a
  requested asset that no input carries is never compared: from one UTxO of
  10,000,000 lovelace and no tokens, a request for 6 tokens is built into a
  transaction whose first output carries the 6 tokens.
\<close>

theorem build_outputs_tokens_absent_from_inputs:
  "sumUtxos [example_utxo] = Inr \<lparr>coin = 10000000, multiasset = None\<rparr>
   \<and> map_sum id txBodyHex
       (buildUnsignedTx example_lib default_env (explicit_opts [example_utxo] [token_request 6]))
     = Inr (BodyCbor
         \<lparr>inputs = [\<lparr>transaction_id = hexToBytes (tx_hash example_utxo), input_index = 0\<rparr>],
          outputs = [token_output ''addr_x'' 2000000 6,
                     \<lparr>address = ''addr_multisig'',
                      amount = \<lparr>coin = 7000000, multiasset = None\<rparr>\<rparr>],
          fee = 1000000, required_signers = []\<rparr>)"
  by (simp add: example_sumUtxos)
     (simp add: example_build_defs example_sumUtxos valueToJs_def jsAssetsSub_def
       jsAssetsIsEmpty_def example_mkValue_tokens example_mkValue_plain token_output_def
       example_utxo_index del: hexToBytes.simps)

end
